theory Spec2Isabelle
  imports Main "HOL-Library.AList"
begin

section \<open>Python runtime errors\<close>

text \<open>
  The exceptions the modelled code can raise. A raising call returns \<open>Inl\<close> of one of
  these; \<open>try/except Exception\<close> blocks of the source are case distinctions on it.
\<close>

datatype error = KeyError | ValueError

section \<open>session\_manager.py: the conversation store\<close>

text \<open>
  \<open>datetime.now()\<close> is an integer instant (microseconds); a \<open>timedelta\<close> is an integer
  too. Every call of \<open>datetime.now()\<close> in the source is a separate reading of the clock,
  so every operation takes one parameter per reading, in the order the source reads.
  A Python \<open>dict\<close> keeps insertion order: it is an association list, assignment to a
  key is \<open>AList.update\<close> (in place for a present key, at the end for a new one),
  \<open>del d[k]\<close> is \<open>AList.delete\<close>, and assignment to a field of the present entry
  \<open>d[k][f] = v\<close> is \<open>AList.map_entry\<close>.
\<close>

type_synonym instant = int

text \<open>One entry of \<open>conversation_history\<close>: the dict
  \<open>{"timestamp": ..., "user": ..., "ai": ...}\<close>. The \<open>isoformat()\<close> string of the
  timestamp is represented by the instant it renders.\<close>

record exchange =
  timestamp :: instant
  user :: string
  ai :: string

record session =
  created_at :: instant
  last_activity :: instant
  conversation_history :: "exchange list"
  session_context :: "(string \<times> string) list"

record session_manager =
  sessions :: "(string \<times> session) list"
  max_session_duration :: int

text \<open>\<open>SessionManager.__init__\<close>; the duration is given in hours.\<close>

definition init_manager :: "int \<Rightarrow> session_manager" where
  "init_manager max_session_duration_hours =
     \<lparr>sessions = [], max_session_duration = max_session_duration_hours * 3600000000\<rparr>"

text \<open>\<open>session_id in self.sessions\<close>\<close>

definition has_session :: "session_manager \<Rightarrow> string \<Rightarrow> bool" where
  "has_session m session_id = (session_id \<in> set (map fst (sessions m)))"

definition fresh_session :: "instant \<Rightarrow> instant \<Rightarrow> session" where
  "fresh_session t_created t_activity =
     \<lparr>created_at = t_created, last_activity = t_activity,
      conversation_history = [], session_context = []\<rparr>"

text \<open>\<open>create_session\<close>: the identifier drawn by \<open>uuid.uuid4()\<close> is a parameter.\<close>

definition create_session ::
  "session_manager \<Rightarrow> string \<Rightarrow> instant \<Rightarrow> instant \<Rightarrow> string \<times> session_manager" where
  "create_session m session_id t_created t_activity =
     (session_id,
      m\<lparr>sessions := AList.update session_id (fresh_session t_created t_activity) (sessions m)\<rparr>)"

text \<open>\<open>_cleanup_expired_sessions\<close>: collects the ids with
  \<open>current_time - last_activity > max_session_duration\<close>, then deletes them.\<close>

definition expired :: "session_manager \<Rightarrow> instant \<Rightarrow> session \<Rightarrow> bool" where
  "expired m current_time s = (current_time - last_activity s > max_session_duration m)"

definition cleanup_expired_sessions :: "session_manager \<Rightarrow> instant \<Rightarrow> session_manager" where
  "cleanup_expired_sessions m current_time =
     (let expired_sessions = map fst (filter (\<lambda>(k, s). expired m current_time s) (sessions m))
      in m\<lparr>sessions := foldl (\<lambda>al k. AList.delete k al) (sessions m) expired_sessions\<rparr>)"

text \<open>
  \<open>get_conversation_history\<close>. The membership test comes first, the sweep second, and
  only then \<open>self.sessions[session_id]\<close> is indexed: indexing a key the sweep has just
  deleted raises \<open>KeyError\<close>. The store is returned with the result since the sweep has
  happened by then.
\<close>

definition get_conversation_history ::
  "session_manager \<Rightarrow> string \<Rightarrow> instant \<Rightarrow> instant
     \<Rightarrow> (error + exchange list) \<times> session_manager" where
  "get_conversation_history m session_id t_sweep t_activity =
     (if \<not> has_session m session_id then (Inr [], m)
      else
        let m1 = cleanup_expired_sessions m t_sweep in
        (case map_of (sessions m1) session_id of
           None \<Rightarrow> (Inl KeyError, m1)
         | Some s \<Rightarrow>
             let m2 = m1\<lparr>sessions :=
                        AList.map_entry session_id (\<lambda>s. s\<lparr>last_activity := t_activity\<rparr>)
                          (sessions m1)\<rparr>
             in (Inr (conversation_history s), m2)))"

text \<open>The slice \<open>xs[-20:]\<close>.\<close>

definition last20 :: "'a list \<Rightarrow> 'a list" where
  "last20 xs = drop (length xs - 20) xs"

text \<open>
  \<open>add_to_conversation\<close>. After the first step the key is present, so none of the
  following indexings can raise. The four clock readings are, in order: the two of the
  fresh session (read only when the id is unknown), the exchange's timestamp, and the new
  \<open>last_activity\<close>.
\<close>

definition add_to_conversation ::
  "session_manager \<Rightarrow> string \<Rightarrow> string \<Rightarrow> string
     \<Rightarrow> instant \<Rightarrow> instant \<Rightarrow> instant \<Rightarrow> instant \<Rightarrow> session_manager" where
  "add_to_conversation m session_id user_message ai_response
       t_created t_activity0 t_stamp t_activity =
     (let al1 = (if \<not> has_session m session_id
                 then AList.update session_id (fresh_session t_created t_activity0) (sessions m)
                 else sessions m);
          al2 = AList.map_entry session_id
                  (\<lambda>s. s\<lparr>conversation_history := conversation_history s @
                       [\<lparr>timestamp = t_stamp, user = user_message, ai = ai_response\<rparr>]\<rparr>) al1;
          al3 = AList.map_entry session_id (\<lambda>s. s\<lparr>last_activity := t_activity\<rparr>) al2;
          al4 = AList.map_entry session_id
                  (\<lambda>s. if length (conversation_history s) > 20
                       then s\<lparr>conversation_history := last20 (conversation_history s)\<rparr>
                       else s) al3
      in m\<lparr>sessions := al4\<rparr>)"

text \<open>\<open>clear_session\<close>\<close>

definition clear_session :: "session_manager \<Rightarrow> string \<Rightarrow> session_manager" where
  "clear_session m session_id =
     (if has_session m session_id
      then m\<lparr>sessions := AList.delete session_id (sessions m)\<rparr>
      else m)"

text \<open>\<open>list_sessions\<close>: the sweep, then one summary
  \<open>(session_id, created_at, last_activity, message_count)\<close> per session.\<close>

definition list_sessions ::
  "session_manager \<Rightarrow> instant
     \<Rightarrow> (string \<times> instant \<times> instant \<times> nat) list \<times> session_manager" where
  "list_sessions m t_sweep =
     (let m1 = cleanup_expired_sessions m t_sweep
      in (map (\<lambda>(session_id, session_data).
                 (session_id, created_at session_data, last_activity session_data,
                  length (conversation_history session_data))) (sessions m1),
          m1))"

text \<open>\<open>get_session_context\<close>\<close>

definition get_session_context :: "session_manager \<Rightarrow> string \<Rightarrow> (string \<times> string) list" where
  "get_session_context m session_id =
     (case map_of (sessions m) session_id of None \<Rightarrow> [] | Some s \<Rightarrow> session_context s)"

text \<open>\<open>update_session_context\<close>; \<open>dict.update\<close> assigns the given pairs in order.\<close>

definition update_session_context ::
  "session_manager \<Rightarrow> string \<Rightarrow> (string \<times> string) list \<Rightarrow> instant \<Rightarrow> session_manager" where
  "update_session_context m session_id ctx t_activity =
     (if \<not> has_session m session_id then m
      else
        let al1 = AList.map_entry session_id
                    (\<lambda>s. s\<lparr>session_context :=
                           foldl (\<lambda>c (k, v). AList.update k v c) (session_context s) ctx\<rparr>)
                    (sessions m);
            al2 = AList.map_entry session_id (\<lambda>s. s\<lparr>last_activity := t_activity\<rparr>) al1
        in m\<lparr>sessions := al2\<rparr>)"

text \<open>\<open>get_session_stats\<close>, the two integer statistics (the average is a float and is
  left out): the sweep, then \<open>total_sessions\<close> and \<open>total_messages\<close>.\<close>

definition get_session_stats ::
  "session_manager \<Rightarrow> instant \<Rightarrow> (nat \<times> nat) \<times> session_manager" where
  "get_session_stats m t_sweep =
     (let m1 = cleanup_expired_sessions m t_sweep
      in ((length (sessions m1),
           sum_list (map (\<lambda>(k, s). length (conversation_history s)) (sessions m1))),
          m1))"

text \<open>The operations of the store as commands, and the store each leaves behind.\<close>

datatype store_op =
    CreateSession string instant instant
  | GetConversationHistory string instant instant
  | AddToConversation string string string instant instant instant instant
  | ClearSession string
  | ListSessions instant
  | UpdateSessionContext string "(string \<times> string) list" instant
  | GetSessionStats instant

fun apply_op :: "session_manager \<Rightarrow> store_op \<Rightarrow> session_manager" where
  "apply_op m (CreateSession sid t1 t2) = snd (create_session m sid t1 t2)"
| "apply_op m (GetConversationHistory sid t1 t2) = snd (get_conversation_history m sid t1 t2)"
| "apply_op m (AddToConversation sid u a t1 t2 t3 t4) = add_to_conversation m sid u a t1 t2 t3 t4"
| "apply_op m (ClearSession sid) = clear_session m sid"
| "apply_op m (ListSessions t) = snd (list_sessions m t)"
| "apply_op m (UpdateSessionContext sid ctx t) = update_session_context m sid ctx t"
| "apply_op m (GetSessionStats t) = snd (get_session_stats m t)"

text \<open>The history of a session, \<open>None\<close> when the store has no such session.\<close>

definition history_of :: "session_manager \<Rightarrow> string \<Rightarrow> exchange list option" where
  "history_of m session_id = map_option conversation_history (map_of (sessions m) session_id)"

text \<open>Every stored history has at most 20 exchanges.\<close>

definition cap_ok :: "session_manager \<Rightarrow> bool" where
  "cap_ok m = list_all (\<lambda>(k, s). length (conversation_history s) \<le> 20) (sessions m)"

text \<open>A run of appends to one session: each element carries the two texts and the four
  clock readings of one \<open>add_to_conversation\<close> call.\<close>

type_synonym append_args = "string \<times> string \<times> instant \<times> instant \<times> instant \<times> instant"

fun add_all :: "session_manager \<Rightarrow> string \<Rightarrow> append_args list \<Rightarrow> session_manager" where
  "add_all m session_id [] = m"
| "add_all m session_id ((u, a, t1, t2, t3, t4) # rest) =
     add_all (add_to_conversation m session_id u a t1 t2 t3 t4) session_id rest"

definition exchange_of :: "append_args \<Rightarrow> exchange" where
  "exchange_of x = (case x of (u, a, t1, t2, t3, t4) \<Rightarrow> \<lparr>timestamp = t3, user = u, ai = a\<rparr>)"


text \<open>What one \<open>add_to_conversation\<close> call does to the session it addresses: the three
  mutations of the source in one function.\<close>

definition appended :: "exchange \<Rightarrow> instant \<Rightarrow> session \<Rightarrow> session" where
  "appended ex t s = s\<lparr>conversation_history := last20 (conversation_history s @ [ex]),
                        last_activity := t\<rparr>"

text \<open>The history the store holds for an id, empty when the id is unknown.\<close>

definition stored_history :: "session_manager \<Rightarrow> string \<Rightarrow> exchange list" where
  "stored_history m session_id = (case history_of m session_id of None \<Rightarrow> [] | Some h \<Rightarrow> h)"

text \<open>A store whose only session was created at instant 0 and never touched since.\<close>

definition idle_store :: session_manager where
  "idle_store = snd (create_session (init_manager 24) ''s1'' 0 0)"

section \<open>emotion\_classifier.py: strings and regular expressions\<close>

text \<open>
  A Python \<open>str\<close> is a HOL \<open>string\<close>: a list of code points below 256. On these,
  \<open>str.lower()\<close> maps \<open>A\<close>..\<open>Z\<close> and the upper-case letters of the upper half
  (0xC0..0xDE without the multiplication sign 0xD7) to the code point 32 above, and
  \<open>str.isspace()\<close>, \<open>str.strip()\<close> and the regular expression class \<open>\s\<close> agree on
  one set of white space characters.
\<close>

definition lower_char :: "char \<Rightarrow> char" where
  "lower_char c =
     (let n = (of_char c :: nat)
      in if (65 \<le> n \<and> n \<le> 90) \<or> (192 \<le> n \<and> n \<le> 222 \<and> n \<noteq> 215)
         then char_of (n + 32) else c)"

definition lower :: "string \<Rightarrow> string" where
  "lower s = map lower_char s"

definition is_space :: "char \<Rightarrow> bool" where
  "is_space c = (c \<in> set [CHR 0x09, CHR 0x0A, CHR 0x0B, CHR 0x0C, CHR 0x0D,
                           CHR 0x1C, CHR 0x1D, CHR 0x1E, CHR 0x1F, CHR 0x20,
                           CHR 0x85, CHR 0xA0])"

definition strip :: "string \<Rightarrow> string" where
  "strip s = rev (dropWhile is_space (rev (dropWhile is_space s)))"

text \<open>\<open>s.startswith(sub)\<close>, and the operator \<open>sub in s\<close>.\<close>

definition starts_with :: "string \<Rightarrow> string \<Rightarrow> bool" where
  "starts_with sub s = (take (length sub) s = sub)"

fun contains :: "string \<Rightarrow> string \<Rightarrow> bool" where
  "contains sub [] = (sub = [])"
| "contains sub (c # rest) = (starts_with sub (c # rest) \<or> contains sub rest)"

text \<open>\<open>s.count(sub)\<close>: the occurrences of \<open>sub\<close> found from left to right, each
  search starting where the last occurrence ended; the empty \<open>sub\<close> occurs
  \<open>len(s) + 1\<close> times.\<close>

function count_sub :: "string \<Rightarrow> string \<Rightarrow> nat" where
  "count_sub sub s =
     (if sub = [] then length s + 1
      else if starts_with sub s then 1 + count_sub sub (drop (length sub) s)
      else (case s of [] \<Rightarrow> 0 | c # rest \<Rightarrow> count_sub sub rest))"
  by pat_completeness auto
termination
proof (relation "measure (\<lambda>(sub, s). length s)")
  fix sub s :: string
  assume "sub \<noteq> []" and "starts_with sub s"
  then have "length (drop (length sub) s) < length s"
    by (cases s; cases sub) (simp_all add: starts_with_def)
  then show "((sub, drop (length sub) s), (sub, s)) \<in> measure (\<lambda>(sub, s). length s)"
    by simp
qed simp_all

declare count_sub.simps [simp del]

text \<open>
  The regular expressions of the source use literals, the class repetition \<open>\s+\<close>,
  concatenation and alternation, so these are the constructors. \<open>rmatch r s\<close> lists
  the remainders of \<open>s\<close> after every way \<open>r\<close> can match at its start, in the order
  the backtracking matcher of \<open>re\<close> tries them: the first alternative first, the longest
  repetition first. With \<open>re.IGNORECASE\<close> a literal matches up to case.
\<close>

datatype regex = Lit string | Spaces | Cat regex regex | Alt regex regex

fun rmatch :: "regex \<Rightarrow> string \<Rightarrow> string list" where
  "rmatch (Lit w) s =
     (if lower (take (length w) s) = lower w then [drop (length w) s] else [])"
| "rmatch Spaces s =
     map (\<lambda>k. drop k s) (rev [1..<Suc (length (takeWhile is_space s))])"
| "rmatch (Cat r1 r2) s = concat (map (rmatch r2) (rmatch r1 s))"
| "rmatch (Alt r1 r2) s = rmatch r1 s @ rmatch r2 s"

text \<open>
  \<open>len(re.findall(r, s))\<close>. The scan takes the first match at the leftmost position
  that has one and goes on from its end. After an empty match the next match may not be
  empty at the same position (\<open>must_advance\<close>), which the filter enforces; so the
  branch of a match that is empty under \<open>must_advance\<close> is never taken.
\<close>

function findall_count :: "regex \<Rightarrow> bool \<Rightarrow> string \<Rightarrow> nat" where
  "findall_count r must_advance s =
     (case filter (\<lambda>rest. length rest < length s \<or> \<not> must_advance) (rmatch r s) of
        rest # others \<Rightarrow>
          (if length rest < length s then 1 + findall_count r False rest
           else if must_advance then 0
           else 1 + findall_count r True s)
      | [] \<Rightarrow> (case s of [] \<Rightarrow> 0 | c # cs \<Rightarrow> findall_count r False cs))"
  by pat_completeness auto
termination
  by (relation "measure (\<lambda>(r, b, s). 2 * length s + (if b then 0 else 1))") auto

declare findall_count.simps [simp del]

text \<open>Writing the patterns: \<open>phrase [w1, w2, ...]\<close> is \<open>w1\s+w2\s+...\<close> and
  \<open>any_of [r1, r2, ...]\<close> is \<open>(r1|r2|...)\<close>.\<close>

fun phrase :: "string list \<Rightarrow> regex" where
  "phrase [] = Lit []"
| "phrase [w] = Lit w"
| "phrase (w # ws) = Cat (Lit w) (Cat Spaces (phrase ws))"

fun any_of :: "regex list \<Rightarrow> regex" where
  "any_of [] = Lit []"
| "any_of [r] = r"
| "any_of (r # rs) = Alt r (any_of rs)"

definition words :: "string list \<Rightarrow> regex" where
  "words ws = any_of (map Lit ws)"

section \<open>emotion\_classifier.py: the classifier\<close>

text \<open>\<open>self.emotion_patterns\<close>: per emotion, in the order of the dict, its keywords
  and its patterns.\<close>

definition emotion_patterns :: "(string \<times> string list \<times> regex list) list" where
  "emotion_patterns =
   [(''happy'',
     [''great'', ''excellent'', ''wonderful'', ''fantastic'', ''amazing'', ''perfect'',
      ''congratulations'', ''well done'', ''brilliant'', ''awesome'', ''good job''],
     [Cat (Lit ''that's'') (Cat Spaces
        (words [''great'', ''excellent'', ''wonderful'', ''fantastic'', ''amazing'', ''perfect''])),
      any_of [phrase [''well'', ''done''], phrase [''good'', ''job''], phrase [''great'', ''work'']],
      Cat (Lit ''you'') (Cat Spaces
        (any_of [phrase [''got'', ''it''], phrase [''did'', ''it''], Lit ''understand'',
                 phrase [''figured'', ''it'', ''out'']]))]),
    (''thinking'',
     [''let me'', ''consider'', ''think'', ''analyze'', ''examine'', ''look at'',
      ''hmm'', ''interesting'', ''complex'', ''challenging'', ''difficult''],
     [Cat (phrase [''let'', ''me'']) (Cat Spaces
        (words [''think'', ''consider'', ''analyze'', ''examine''])),
      Cat (phrase [''this'', ''is'']) (Cat Spaces
        (words [''interesting'', ''complex'', ''challenging'', ''difficult''])),
      words [''hmm'', ''well'', ''now''],
      Cat (phrase [''i'', ''need'', ''to'']) (Cat Spaces
        (words [''think'', ''consider'', ''analyze'']))]),
    (''explaining'',
     [''because'', ''since'', ''therefore'', ''thus'', ''so'', ''explanation'',
      ''reason'', ''cause'', ''due to'', ''as a result'', ''consequently''],
     [Cat (words [''because'', ''since'', ''therefore'', ''thus'', ''so'']) Spaces,
      Cat (phrase [''the'', ''reason'']) (Cat Spaces (words [''is'', ''for'', ''that''])),
      phrase [''this'', ''happens'', ''because''],
      any_of [phrase [''step'', ''by'', ''step''], Lit ''first'', Lit ''second'', Lit ''third'',
              Lit ''next'', Lit ''then'', Lit ''finally''],
      any_of [phrase [''for'', ''example''], phrase [''such'', ''as''], Lit ''like'']]),
    (''encouraging'',
     [''keep'', ''try'', ''practice'', ''don't worry'', ''you can'', ''believe'',
      ''confident'', ''progress'', ''improve'', ''learning''],
     [any_of [phrase [''keep'', ''trying''], phrase [''keep'', ''practicing''],
              phrase [''don't'', ''worry'']],
      Cat (phrase [''you'', ''can'']) (Cat Spaces
        (any_of [phrase [''do'', ''it''], Lit ''learn'', Lit ''improve'',
                 phrase [''get'', ''better'']])),
      any_of [phrase [''practice'', ''makes'', ''perfect''], phrase [''with'', ''practice'']],
      Cat (Lit ''you're'') (Cat Spaces
        (any_of [Lit ''learning'', Lit ''improving'', phrase [''making'', ''progress'']]))]),
    (''questioning'',
     [''what'', ''how'', ''why'', ''when'', ''where'', ''which'', ''can you'',
      ''do you'', ''have you'', ''would you'', ''could you''],
     [Cat (words [''what'', ''how'', ''why'', ''when'', ''where'', ''which'']) Spaces,
      Cat (any_of [phrase [''can'', ''you''], phrase [''do'', ''you''], phrase [''have'', ''you''],
                   phrase [''would'', ''you''], phrase [''could'', ''you'']]) Spaces,
      Lit ''?''])]"

definition default_emotion :: string where
  "default_emotion = ''explaining''"

text \<open>The score of one emotion before the contextual rules: every keyword counts once
  per occurrence, every pattern twice per match.\<close>

definition base_score :: "string list \<times> regex list \<Rightarrow> string \<Rightarrow> int" where
  "base_score patterns response_lower =
     (let score1 = foldl (\<lambda>score keyword. score + int (count_sub (lower keyword) response_lower))
                     0 (fst patterns)
      in foldl (\<lambda>score pattern. score + int (findall_count pattern False response_lower) * 2)
           score1 (snd patterns))"

text \<open>\<open>emotion_scores[key] += n\<close> raises \<open>KeyError\<close> for a key the dict lacks.\<close>

definition add_score :: "string \<Rightarrow> int \<Rightarrow> (string \<times> int) list \<Rightarrow> error + (string \<times> int) list" where
  "add_score key n emotion_scores =
     (case map_of emotion_scores key of
        None \<Rightarrow> Inl KeyError
      | Some v \<Rightarrow> Inr (AList.update key (v + n) emotion_scores))"

text \<open>Sequencing of statements that may raise.\<close>

definition and_then :: "error + 'a \<Rightarrow> ('a \<Rightarrow> error + 'b) \<Rightarrow> error + 'b" where
  "and_then r f = (case r of Inl e \<Rightarrow> Inl e | Inr v \<Rightarrow> f v)"

definition error_indicators :: "string list" where
  "error_indicators = [''wrong'', ''incorrect'', ''mistake'', ''error'', ''not right'']"

definition struggle_indicators :: "string list" where
  "struggle_indicators = [''help'', ''don't understand'', ''confused'', ''stuck'', ''difficult'']"

definition praise_words :: "string list" where
  "praise_words = [''correct'', ''right'', ''good'', ''excellent'', ''perfect'', ''exactly'']"

definition encouraging_phrases :: "string list" where
  "encouraging_phrases = [''keep going'', ''you're on the right track'', ''good effort'',
                          ''try again'', ''practice more'']"

definition formula_chars :: "string list" where
  "formula_chars = [''='', ''+'', ''-'', ''*'', ''/'', ''{'', ''}'', ''['', '']'']"

text \<open>\<open>_apply_contextual_rules\<close>, rule by rule.\<close>

definition rule1 :: "string \<Rightarrow> (string \<times> int) list \<Rightarrow> error + (string \<times> int) list" where
  "rule1 ai_response sc =
     (if length (strip ai_response) < 20 then add_score ''thinking'' 2 sc else Inr sc)"

definition rule2 :: "string \<Rightarrow> (string \<times> int) list \<Rightarrow> error + (string \<times> int) list" where
  "rule2 ai_response sc =
     (if list_ex (\<lambda>char. contains char ai_response) formula_chars
      then add_score ''explaining'' 3 sc else Inr sc)"

definition rule3 :: "string \<Rightarrow> (string \<times> int) list \<Rightarrow> error + (string \<times> int) list" where
  "rule3 query_lower sc =
     (if list_ex (\<lambda>indicator. contains indicator query_lower) error_indicators
      then add_score ''encouraging'' 2 sc else Inr sc)"

definition rule4 :: "string \<Rightarrow> (string \<times> int) list \<Rightarrow> error + (string \<times> int) list" where
  "rule4 query_lower sc =
     (if list_ex (\<lambda>indicator. contains indicator query_lower) struggle_indicators
      then add_score ''encouraging'' 2 sc else Inr sc)"

definition praise_count :: "string \<Rightarrow> nat" where
  "praise_count response_lower =
     length (filter (\<lambda>word. contains word response_lower) praise_words)"

definition rule5 :: "string \<Rightarrow> (string \<times> int) list \<Rightarrow> error + (string \<times> int) list" where
  "rule5 response_lower sc =
     (if praise_count response_lower \<ge> 2 then add_score ''happy'' 4 sc else Inr sc)"

definition rule6 :: "string \<Rightarrow> (string \<times> int) list \<Rightarrow> error + (string \<times> int) list" where
  "rule6 ai_response sc =
     (let question_count = count_sub ''?'' ai_response
      in add_score ''questioning'' (int question_count * 2) sc)"

definition rule7 :: "string \<Rightarrow> (string \<times> int) list \<Rightarrow> error + (string \<times> int) list" where
  "rule7 ai_response sc =
     (if length (strip ai_response) > 200 then add_score ''explaining'' 2 sc else Inr sc)"

fun rule8 :: "string list \<Rightarrow> string \<Rightarrow> (string \<times> int) list \<Rightarrow> error + (string \<times> int) list" where
  "rule8 [] response_lower sc = Inr sc"
| "rule8 (p # phrases) response_lower sc =
     (if contains p response_lower
      then and_then (add_score ''encouraging'' 3 sc) (rule8 phrases response_lower)
      else rule8 phrases response_lower sc)"

definition apply_contextual_rules ::
  "(string \<times> int) list \<Rightarrow> string \<Rightarrow> string \<Rightarrow> error + (string \<times> int) list" where
  "apply_contextual_rules emotion_scores ai_response user_query =
     (let response_lower = lower ai_response;
          query_lower = lower user_query
      in and_then (rule1 ai_response emotion_scores) (\<lambda>sc1.
         and_then (rule2 ai_response sc1) (\<lambda>sc2.
         and_then (rule3 query_lower sc2) (\<lambda>sc3.
         and_then (rule4 query_lower sc3) (\<lambda>sc4.
         and_then (rule5 response_lower sc4) (\<lambda>sc5.
         and_then (rule6 ai_response sc5) (\<lambda>sc6.
         and_then (rule7 ai_response sc6) (\<lambda>sc7.
         rule8 encouraging_phrases response_lower sc7))))))))"

text \<open>Python's \<open>max(xs, key=f)\<close>: \<open>ValueError\<close> on the empty sequence, otherwise the
  first element whose key no later element exceeds (a later element replaces the best
  so far only when its key is strictly greater).\<close>

fun py_max_by :: "('a \<Rightarrow> int) \<Rightarrow> 'a list \<Rightarrow> error + 'a" where
  "py_max_by key [] = Inl ValueError"
| "py_max_by key (x # xs) = Inr (foldl (\<lambda>best y. if key y > key best then y else best) x xs)"

text \<open>The dict \<open>emotion_scores\<close> as \<open>classify_emotion\<close> has it after the contextual
  rules.\<close>

definition final_scores :: "string \<Rightarrow> string \<Rightarrow> error + (string \<times> int) list" where
  "final_scores ai_response user_query =
     (let response_lower = lower ai_response;
          emotion_scores = map (\<lambda>(emotion, patterns). (emotion, base_score patterns response_lower))
                             emotion_patterns
      in apply_contextual_rules emotion_scores ai_response user_query)"

text \<open>
  \<open>classify_emotion\<close>. \<open>max(emotion_scores.values())\<close> is the greatest score,
  \<open>max(emotion_scores, key=emotion_scores.get)\<close> the first key with it (every key of a
  dict has one value, so the keys are compared by the value stored with them). Any
  exception on the way is caught and gives the default emotion.
\<close>

definition classify_emotion :: "string \<Rightarrow> string \<Rightarrow> string" where
  "classify_emotion ai_response user_query =
     (case final_scores ai_response user_query of
        Inl e \<Rightarrow> default_emotion
      | Inr emotion_scores \<Rightarrow>
          (case py_max_by id (map snd emotion_scores) of
             Inl e \<Rightarrow> default_emotion
           | Inr highest \<Rightarrow>
               if highest > 0
               then (case py_max_by snd emotion_scores of
                       Inl e \<Rightarrow> default_emotion
                     | Inr best \<Rightarrow> fst best)
               else default_emotion))"

text \<open>The dict of the five emotions, in the order of \<open>emotion_patterns\<close>.\<close>

definition scores5 :: "int \<Rightarrow> int \<Rightarrow> int \<Rightarrow> int \<Rightarrow> int \<Rightarrow> (string \<times> int) list" where
  "scores5 h t x e q =
     [(''happy'', h), (''thinking'', t), (''explaining'', x), (''encouraging'', e),
      (''questioning'', q)]"

text \<open>The score of an emotion before the contextual rules.\<close>

definition emotion_base :: "string \<Rightarrow> string \<Rightarrow> int" where
  "emotion_base emotion response_lower =
     (case map_of emotion_patterns emotion of
        None \<Rightarrow> 0
      | Some patterns \<Rightarrow> base_score patterns response_lower)"

text \<open>
  Texts without signal. \<open>never_starts T r\<close>: no match of \<open>r\<close> begins with a
  character of \<open>T\<close>. \<open>quiet T\<close>: neither a keyword, a pattern, nor any word or
  character the contextual rules look for in the response begins with a character of
  \<open>T\<close>. A response made of such characters only scores nothing but for its length.
\<close>

fun never_starts :: "char list \<Rightarrow> regex \<Rightarrow> bool" where
  "never_starts T (Lit w) = (w \<noteq> [] \<and> lower_char (hd w) \<notin> set (map lower_char T))"
| "never_starts T Spaces = list_all (\<lambda>c. \<not> is_space c) T"
| "never_starts T (Cat r1 r2) = never_starts T r1"
| "never_starts T (Alt r1 r2) = (never_starts T r1 \<and> never_starts T r2)"

definition foreign :: "char list \<Rightarrow> string \<Rightarrow> bool" where
  "foreign T w = (w \<noteq> [] \<and> hd w \<notin> set T)"

definition quiet :: "char list \<Rightarrow> bool" where
  "quiet T =
     (list_all (\<lambda>(emotion, keywords, patterns).
          list_all (\<lambda>keyword. foreign T (lower keyword)) keywords \<and>
          list_all (never_starts T) patterns) emotion_patterns
      \<and> list_all (foreign T) formula_chars
      \<and> list_all (foreign T) praise_words
      \<and> list_all (foreign T) encouraging_phrases
      \<and> foreign T ''?'')"

definition white_space :: "char list" where
  "white_space = [CHR 0x09, CHR 0x0A, CHR 0x0B, CHR 0x0C, CHR 0x0D,
                  CHR 0x1C, CHR 0x1D, CHR 0x1E, CHR 0x1F, CHR 0x20, CHR 0x85, CHR 0xA0]"

text \<open>What rules 3 and 4 add to \<open>encouraging\<close> for a query.\<close>

definition query_bonus :: "string \<Rightarrow> int" where
  "query_bonus user_query =
     (if list_ex (\<lambda>indicator. contains indicator (lower user_query)) error_indicators
      then 2 else 0) +
     (if list_ex (\<lambda>indicator. contains indicator (lower user_query)) struggle_indicators
      then 2 else 0)"

section \<open>gemini\_ai.py and rag\_pipeline.py: the provider cascade\<close>

text \<open>
  The external services are parameters. A call of one either raises (with the text
  \<open>str(e)\<close> of the exception) or returns a text. A service may answer differently
  each time it is called: its behaviour takes the number of earlier invocations of that
  provider in this cascade call, and the prompt.
\<close>

datatype reply = Raised string | Returned string

datatype provider = Gemini | Retrieval | OpenAI | StaticFallback

text \<open>
  \<^item> \<open>gemini_model\<close>: \<open>GeminiAI.model\<close>, \<open>None\<close> when no API key is configured;
    otherwise what \<open>generate_content(prompt)\<close> followed by \<open>response.text\<close> does,
    where the empty text stands for a response or a text that is falsy.
  \<^item> \<open>vectorstore\<close>: whether \<open>RAGPipeline.vectorstore\<close> is set.
  \<^item> \<open>qa_chain\<close>: building the retrieval chain, calling it on the question and
    reading \<open>result["answer"]\<close>.
  \<^item> \<open>llm_invoke\<close>: \<open>self.llm.invoke(messages).content\<close> for the system prompt and
    the question; it raises also when \<open>self.llm\<close> is \<open>None\<close>.
\<close>

record providers =
  gemini_model :: "(nat \<Rightarrow> string \<Rightarrow> reply) option"
  vectorstore :: bool
  qa_chain :: "nat \<Rightarrow> string \<Rightarrow> reply"
  llm_invoke :: "nat \<Rightarrow> string \<Rightarrow> string \<Rightarrow> reply"

text \<open>A message of the conversation history is a dict from strings to strings.\<close>

type_synonym message = "(string \<times> string) list"

definition nl :: string where
  "nl = [CHR 0x0A]"

text \<open>\<open>"\n".join(parts)\<close>\<close>

fun join_lines :: "string list \<Rightarrow> string" where
  "join_lines [] = []"
| "join_lines [p] = p"
| "join_lines (p # ps) = p @ nl @ join_lines ps"

text \<open>The slice \<open>xs[-n:]\<close> for a positive \<open>n\<close>.\<close>

definition last_n :: "nat \<Rightarrow> 'a list \<Rightarrow> 'a list" where
  "last_n n xs = drop (length xs - n) xs"

text \<open>\<open>GeminiAI._build_context\<close>: the last 3 exchanges, skipping a message that lacks
  a key.\<close>

definition gemini_build_context :: "message list \<Rightarrow> string" where
  "gemini_build_context history =
     (if history = [] then []
      else join_lines
             (''Previous conversation context:'' #
              concat (map (\<lambda>msg.
                  (case (map_of msg ''user'', map_of msg ''ai'') of
                     (Some u, Some a) \<Rightarrow> [''Student: '' @ u, ''AI Tutor: '' @ a]
                   | _ \<Rightarrow> []))
                (last_n 3 history))))"

definition fallback_machine_learning :: string where
  "fallback_machine_learning =
     ''Machine Learning is a subset of artificial intelligence that enables computers to learn and make decisions from data without being explicitly programmed for every scenario.'' @ nl @
     nl @
     ''Key Types of Machine Learning:'' @ nl @
     ''1. **Supervised Learning**: Learning with labeled data (like classification and regression)'' @ nl @
     ''2. **Unsupervised Learning**: Finding patterns in unlabeled data (like clustering)'' @ nl @
     ''3. **Reinforcement Learning**: Learning through interaction and rewards'' @ nl @
     nl @
     ''Common applications include image recognition, natural language processing, recommendation systems, and predictive analytics. Would you like to know more about any specific aspect?''"

definition fallback_neural_networks :: string where
  "fallback_neural_networks =
     ''Neural Networks are computational models inspired by biological neural networks in the brain. They consist of interconnected nodes (neurons) that process and transmit information.'' @ nl @
     nl @
     ''Key Components:'' @ nl @
     ''- **Input Layer**: Receives data'' @ nl @
     ''- **Hidden Layer(s)**: Process information'' @ nl @
     ''- **Output Layer**: Produces results'' @ nl @
     ''- **Weights & Biases**: Parameters that are learned during training'' @ nl @
     nl @
     ''Deep Learning uses neural networks with multiple hidden layers to model complex patterns in data. It's particularly powerful for tasks like image recognition, speech processing, and natural language understanding.''"

definition fallback_programming :: string where
  "fallback_programming =
     ''Programming is the process of creating instructions for computers to execute. Here are some fundamental concepts:'' @ nl @
     nl @
     ''**Programming Basics**:'' @ nl @
     ''- Variables: Store data values'' @ nl @
     ''- Functions: Reusable blocks of code'' @ nl @
     ''- Control Structures: if/else, loops (for, while)'' @ nl @
     ''- Data Structures: Arrays, lists, dictionaries'' @ nl @
     nl @
     ''**Python** is an excellent language for beginners because of its readable syntax and powerful libraries for AI/ML like NumPy, Pandas, and TensorFlow.'' @ nl @
     nl @
     ''**Problem-Solving Approach**:'' @ nl @
     ''1. Understand the problem'' @ nl @
     ''2. Break it into smaller parts'' @ nl @
     ''3. Write pseudocode'' @ nl @
     ''4. Implement and test'' @ nl @
     nl @
     ''What specific programming concept would you like to explore?''"

definition fallback_mathematics :: string where
  "fallback_mathematics =
     ''Mathematics is fundamental to understanding AI and Machine Learning. Key areas include:'' @ nl @
     nl @
     ''**Linear Algebra**:'' @ nl @
     ''- Vectors and matrices'' @ nl @
     ''- Matrix operations'' @ nl @
     ''- Eigenvalues and eigenvectors'' @ nl @
     nl @
     ''**Calculus**:'' @ nl @
     ''- Derivatives for optimization'' @ nl @
     ''- Chain rule for backpropagation'' @ nl @
     ''- Gradient descent'' @ nl @
     nl @
     ''**Statistics & Probability**:'' @ nl @
     ''- Probability distributions'' @ nl @
     ''- Bayes' theorem'' @ nl @
     ''- Statistical inference'' @ nl @
     nl @
     ''**Optimization**:'' @ nl @
     ''- Finding minimum/maximum values'' @ nl @
     ''- Gradient-based methods'' @ nl @
     ''- Convex vs non-convex problems'' @ nl @
     nl @
     ''These mathematical concepts help us understand how AI algorithms learn from data and make predictions.''"

definition fallback_general_help :: string where
  "fallback_general_help =
     ''I'm here to help you learn about AI, Machine Learning, Programming, and Mathematics! '' @ nl @
     nl @
     ''Here are some topics I can assist with:'' @ nl @
     ''- **AI & Machine Learning**: Concepts, algorithms, applications'' @ nl @
     ''- **Programming**: Python, algorithms, data structures'' @ nl @
     ''- **Mathematics**: Linear algebra, calculus, statistics'' @ nl @
     ''- **Deep Learning**: Neural networks, backpropagation, architectures'' @ nl @
     nl @
     ''Feel free to ask specific questions like:'' @ nl @
     ''- \"What is supervised learning?\"'' @ nl @
     ''- \"How do neural networks work?\"'' @ nl @
     ''- \"Explain gradient descent\"'' @ nl @
     ''- \"Help with Python loops\"'' @ nl @
     nl @
     ''What would you like to learn about today?''"

definition fallback_generic :: string where
  "fallback_generic =
     ''I'm experiencing some technical difficulties connecting to my AI model right now, but I'm still here to help! '' @ nl @
     nl @
     ''I have knowledge about:'' @ nl @
     ''- **Artificial Intelligence & Machine Learning**'' @ nl @
     ''- **Programming and Computer Science**'' @ nl @
     ''- **Mathematics for AI**'' @ nl @
     ''- **Deep Learning and Neural Networks**'' @ nl @
     nl @
     ''Please try rephrasing your question or ask about one of these specific topics. You can also try asking again in a few moments when my connection might be restored.'' @ nl @
     nl @
     ''Is there a particular area of AI or programming you'd like to explore?''"

definition system_prompt :: string where
  "system_prompt =
     ''You are an AI tutor designed to help students learn. '' @ nl @
     ''            You should be helpful, encouraging, and educational in your responses. '' @ nl @
     ''            If you don't know something, admit it and suggest ways the student could find the answer.''"

definition prompt_head :: string where
  "prompt_head =
     ''You are an expert AI tutor specializing in artificial intelligence, machine learning, programming, and mathematics. Your role is to:'' @ nl @
     nl @
     ''1. Provide clear, educational explanations'' @ nl @
     ''2. Use examples and analogies when helpful'' @ nl @
     ''3. Encourage learning and curiosity'' @ nl @
     ''4. Break down complex topics into understandable parts'' @ nl @
     ''5. Suggest follow-up questions or topics to explore'' @ nl @
     nl @
     ''FORMATTING INSTRUCTIONS:'' @ nl @
     ''- Do NOT use asterisks (*) for emphasis or bullet points'' @ nl @
     ''- Use simple text formatting with capital letters for emphasis'' @ nl @
     ''- Use numbered lists (1., 2., 3.) or dashes (-) for bullet points'' @ nl @
     ''- Keep responses conversational and easy to read'' @ nl @
     ''- Avoid markdown formatting symbols like *, **, _'' @ nl @
     nl"

definition prompt_question :: string where
  "prompt_question =
     nl @
     nl @
     ''Student's current question: ''"

definition prompt_tail :: string where
  "prompt_tail =
     nl @
     nl @
     ''Please provide a comprehensive, educational response that helps the student learn. Remember to avoid using asterisks in your formatting:''"

definition not_configured_message :: string where
  "not_configured_message = ''Gemini AI is not properly configured. Please check your API key.''"

definition trouble_message :: string where
  "trouble_message =
     ''I'm having trouble generating a response right now. Could you please rephrase your question?''"

definition difficulties_message :: "string \<Rightarrow> string" where
  "difficulties_message e = ''I'm experiencing some technical difficulties. Error: '' @ e"

text \<open>
  \<open>GeminiAI.chat\<close>. The whole body is inside \<open>try/except Exception\<close>, so the call
  always returns a text. The history \<open>None\<close> of the default argument and the empty
  list are both falsy and are both the empty list here. The second component is the log
  of provider invocations, extended by this one.
\<close>

definition gemini_chat ::
  "providers \<Rightarrow> provider list \<Rightarrow> string \<Rightarrow> message list \<Rightarrow> string \<times> provider list" where
  "gemini_chat env log message history =
     (case gemini_model env of
        None \<Rightarrow> (not_configured_message, log @ [Gemini])
      | Some generate_content \<Rightarrow>
          let context = (if history \<noteq> [] then gemini_build_context history
                         else []);
              full_prompt = prompt_head @ context @ prompt_question @ message @ prompt_tail
          in (case generate_content (count_list log Gemini) full_prompt of
                Raised e \<Rightarrow> (difficulties_message e, log @ [Gemini])
              | Returned text \<Rightarrow>
                  if text \<noteq> [] then (text, log @ [Gemini])
                  else (trouble_message, log @ [Gemini])))"

text \<open>The test both callers apply to a Gemini answer:
  \<open>gemini_response and "experiencing some technical difficulties" not in gemini_response.lower()\<close>.\<close>

definition usable :: "string \<Rightarrow> bool" where
  "usable gemini_response =
     (gemini_response \<noteq> [] \<and>
      \<not> contains ''experiencing some technical difficulties'' (lower gemini_response))"

text \<open>\<open>RAGPipeline._get_fallback_response\<close>\<close>

definition get_fallback_response :: "string \<Rightarrow> string" where
  "get_fallback_response question =
     (let query_lower = lower question in
      if list_ex (\<lambda>term. contains term query_lower)
           [''machine learning'', ''ml'', ''artificial intelligence'', ''ai'']
      then fallback_machine_learning
      else if list_ex (\<lambda>term. contains term query_lower)
           [''neural network'', ''deep learning'', ''neuron'']
      then fallback_neural_networks
      else if list_ex (\<lambda>term. contains term query_lower)
           [''programming'', ''coding'', ''python'', ''algorithm'']
      then fallback_programming
      else if list_ex (\<lambda>term. contains term query_lower)
           [''math'', ''calculus'', ''linear algebra'', ''statistics'']
      then fallback_mathematics
      else if list_ex (\<lambda>term. contains term query_lower)
           [''help'', ''what'', ''how'', ''explain'']
      then fallback_general_help
      else fallback_generic)"

text \<open>
  \<open>RAGPipeline._direct_llm_query\<close>: Gemini once more (without history), then the
  OpenAI model, then the static answers. Nothing escapes the two \<open>try\<close> blocks.
\<close>

definition direct_llm_query ::
  "providers \<Rightarrow> provider list \<Rightarrow> string \<Rightarrow> string \<times> provider list" where
  "direct_llm_query env log question =
     (let (gemini_response, log1) = gemini_chat env log question [] in
      if usable gemini_response then (gemini_response, log1)
      else (case llm_invoke env (count_list log1 OpenAI) system_prompt question of
              Returned content \<Rightarrow> (content, log1 @ [OpenAI])
            | Raised e \<Rightarrow> (get_fallback_response question, log1 @ [OpenAI, StaticFallback])))"

text \<open>\<open>RAGPipeline.query\<close>: without a vector store straight to the direct query;
  otherwise the retrieval chain, and the direct query when anything in it raises.\<close>

definition query :: "providers \<Rightarrow> provider list \<Rightarrow> string \<Rightarrow> string \<times> provider list" where
  "query env log question =
     (if \<not> vectorstore env then direct_llm_query env log question
      else (case qa_chain env (count_list log Retrieval) question of
              Returned answer \<Rightarrow> (answer, log @ [Retrieval])
            | Raised e \<Rightarrow> direct_llm_query env (log @ [Retrieval]) question))"

text \<open>\<open>RAGPipeline._build_conversation_context\<close>: the last 5 exchanges;
  \<open>msg['user']\<close> and \<open>msg['ai']\<close> raise \<open>KeyError\<close> on a message without the key.\<close>

fun context_parts :: "message list \<Rightarrow> error + string list" where
  "context_parts [] = Inr []"
| "context_parts (msg # rest) =
     (case map_of msg ''user'' of
        None \<Rightarrow> Inl KeyError
      | Some u \<Rightarrow>
          (case map_of msg ''ai'' of
             None \<Rightarrow> Inl KeyError
           | Some a \<Rightarrow>
               (case context_parts rest of
                  Inl e \<Rightarrow> Inl e
                | Inr parts \<Rightarrow> Inr ((''User: '' @ u) # (''AI: '' @ a) # parts))))"

definition build_conversation_context :: "message list \<Rightarrow> error + string" where
  "build_conversation_context history =
     (if history = [] then Inr []
      else (case context_parts (last_n 5 history) of
              Inl e \<Rightarrow> Inl e
            | Inr parts \<Rightarrow> Inr (join_lines (''Previous conversation:'' # parts))))"

text \<open>
  \<open>RAGPipeline.chat\<close>, the entry point of the cascade; the log starts empty. The first
  \<open>try\<close> block cannot raise, since \<open>GeminiAI.chat\<close> returns a text whatever happens.
  In the second, \<open>_build_conversation_context\<close> may raise, which leads to the direct
  query with the bare question.
\<close>

definition chat :: "providers \<Rightarrow> string \<Rightarrow> message list \<Rightarrow> string \<times> provider list" where
  "chat env question history =
     (let (gemini_response, log1) = gemini_chat env [] question history in
      if usable gemini_response then (gemini_response, log1)
      else (case build_conversation_context history of
              Inl e \<Rightarrow> direct_llm_query env log1 question
            | Inr context \<Rightarrow>
                query env log1 (context @ nl @ nl @ ''Current question: '' @ question)))"

text \<open>Provider behaviours used below. In both, Gemini raises on every call. In the
  first the vector store is set and the retrieval chain answers with the empty text; in
  the second there is no vector store and the OpenAI model answers with the empty text.\<close>

definition empty_answer_env :: providers where
  "empty_answer_env =
     \<lparr>gemini_model = Some (\<lambda>n prompt. Raised ''quota exceeded''),
      vectorstore = True,
      qa_chain = (\<lambda>n question. Returned []),
      llm_invoke = (\<lambda>n system question. Raised ''unavailable'')\<rparr>"

definition empty_content_env :: providers where
  "empty_content_env =
     \<lparr>gemini_model = Some (\<lambda>n prompt. Raised ''quota exceeded''),
      vectorstore = False,
      qa_chain = (\<lambda>n question. Raised ''no chain''),
      llm_invoke = (\<lambda>n system question. Returned [])\<rparr>"



section \<open>Properties of the conversation store\<close>

lemma last20_short: "length xs \<le> 20 \<Longrightarrow> last20 xs = xs"
  by (simp add: last20_def)

lemma length_last20: "length (last20 xs) \<le> 20"
  by (simp add: last20_def)

lemma last20_append: "last20 (last20 xs @ ys) = last20 (xs @ ys)"
  by (cases "length xs \<le> 20") (simp_all add: last20_def add.commute)

lemma map_of_map_entry:
  "map_of (AList.map_entry k f al) k' =
     (if k' = k then map_option f (map_of al k) else map_of al k')"
  by (induction al) auto

lemma keys_map_entry: "map fst (AList.map_entry k f al) = map fst al"
  by (induction al) auto

lemma keys_update_new: "k \<notin> set (map fst al) \<Longrightarrow> map fst (AList.update k v al) = map fst al @ [k]"
  by (induction al) auto

lemma list_all_map_entry:
  "list_all (\<lambda>(k, s). P s) al \<Longrightarrow> (\<And>s. P s \<Longrightarrow> P (f s)) \<Longrightarrow>
   list_all (\<lambda>(k, s). P s) (AList.map_entry k' f al)"
  by (induction al) auto

lemma list_all_map_entry_any:
  "list_all (\<lambda>(k, s). P s) al \<Longrightarrow> (\<And>s. P (f s)) \<Longrightarrow>
   list_all (\<lambda>(k, s). P s) (AList.map_entry k' f al)"
  by (induction al) auto

lemma list_all_update:
  "list_all (\<lambda>(k, s). P s) al \<Longrightarrow> P v \<Longrightarrow> list_all (\<lambda>(k, s). P s) (AList.update k' v al)"
  by (induction al) auto

lemma list_all_delete:
  "list_all P al \<Longrightarrow> list_all P (AList.delete k al)"
  by (simp add: AList.delete_eq list_all_iff)

lemma list_all_foldl_delete:
  "list_all P al \<Longrightarrow> list_all P (foldl (\<lambda>al k. AList.delete k al) al ks)"
  by (induction ks arbitrary: al) (auto simp: list_all_delete)

lemma cap_ok_cleanup: "cap_ok m \<Longrightarrow> cap_ok (cleanup_expired_sessions m t)"
  by (simp add: cap_ok_def cleanup_expired_sessions_def Let_def list_all_foldl_delete)

lemma cap_ok_create: "cap_ok m \<Longrightarrow> cap_ok (snd (create_session m sid t1 t2))"
  by (simp add: cap_ok_def create_session_def list_all_update fresh_session_def)

lemma cap_ok_get: "cap_ok m \<Longrightarrow> cap_ok (snd (get_conversation_history m sid t1 t2))"
proof -
  assume a: "cap_ok m"
  have c: "cap_ok (cleanup_expired_sessions m t1)" using a by (rule cap_ok_cleanup)
  then have "cap_ok ((cleanup_expired_sessions m t1)\<lparr>sessions :=
                        AList.map_entry sid (\<lambda>s. s\<lparr>last_activity := t2\<rparr>)
                          (sessions (cleanup_expired_sessions m t1))\<rparr>)"
    by (simp add: cap_ok_def list_all_map_entry)
  with a c show ?thesis
    by (simp add: get_conversation_history_def Let_def split: option.splits)
qed

lemma map_entry_comp:
  "AList.map_entry k f (AList.map_entry k g al) = AList.map_entry k (\<lambda>s. f (g s)) al"
  by (induction al) auto

lemma add_to_conversation_eq:
  "add_to_conversation m sid u a t1 t2 t3 t4 =
     m\<lparr>sessions := AList.map_entry sid (appended \<lparr>timestamp = t3, user = u, ai = a\<rparr> t4)
        (if \<not> has_session m sid then AList.update sid (fresh_session t1 t2) (sessions m)
         else sessions m)\<rparr>"
proof -
  have "(\<lambda>s. if 20 < length (conversation_history (s\<lparr>conversation_history := conversation_history s @ [ex], last_activity := t\<rparr>))
            then (s\<lparr>conversation_history := conversation_history s @ [ex], last_activity := t\<rparr>)
                   \<lparr>conversation_history := last20 (conversation_history
                       (s\<lparr>conversation_history := conversation_history s @ [ex], last_activity := t\<rparr>))\<rparr>
            else s\<lparr>conversation_history := conversation_history s @ [ex], last_activity := t\<rparr>)
        = appended ex t" for ex t
    by (rule ext) (simp add: appended_def last20_def)
  then show ?thesis
    by (simp add: add_to_conversation_def Let_def map_entry_comp)
qed

lemma cap_ok_add: "cap_ok m \<Longrightarrow> cap_ok (add_to_conversation m sid u a t1 t2 t3 t4)"
  by (simp add: add_to_conversation_eq cap_ok_def list_all_map_entry_any list_all_update
        appended_def length_last20 fresh_session_def del: length_append)

lemma cap_ok_clear: "cap_ok m \<Longrightarrow> cap_ok (clear_session m sid)"
  by (simp add: clear_session_def cap_ok_def list_all_delete)

lemma cap_ok_update_ctx: "cap_ok m \<Longrightarrow> cap_ok (update_session_context m sid ctx t)"
  by (simp add: update_session_context_def cap_ok_def Let_def list_all_map_entry)

lemma cap_ok_apply_op: "cap_ok m \<Longrightarrow> cap_ok (apply_op m op)"
  by (cases op)
     (simp_all add: cap_ok_create cap_ok_get cap_ok_add cap_ok_clear cap_ok_update_ctx
        cap_ok_cleanup list_sessions_def get_session_stats_def Let_def)

lemma cap_ok_run: "cap_ok m \<Longrightarrow> cap_ok (foldl apply_op m ops)"
  by (induction ops arbitrary: m) (simp_all add: cap_ok_apply_op)

lemma cap_ok_init: "cap_ok (init_manager h)"
  by (simp add: cap_ok_def init_manager_def)

lemma map_of_update_new:
  "map_of (AList.update k v al) k = Some v"
  by (simp add: AList.update_conv')

lemma history_of_add:
  "history_of (add_to_conversation m sid u a t1 t2 t3 t4) sid =
     Some (last20 (stored_history m sid @ [\<lparr>timestamp = t3, user = u, ai = a\<rparr>]))"
proof (cases "has_session m sid")
  case True
  then obtain s where "map_of (sessions m) sid = Some s"
    by (cases "map_of (sessions m) sid") (auto simp: has_session_def map_of_eq_None_iff)
  with True show ?thesis
    by (simp add: add_to_conversation_eq history_of_def stored_history_def map_of_map_entry appended_def)
next
  case False
  then have "map_of (sessions m) sid = None"
    by (simp add: has_session_def map_of_eq_None_iff)
  with False show ?thesis
    by (simp add: add_to_conversation_eq history_of_def stored_history_def map_of_map_entry
          appended_def AList.update_conv' fresh_session_def)
qed

lemma stored_history_add:
  "stored_history (add_to_conversation m sid u a t1 t2 t3 t4) sid =
     last20 (stored_history m sid @ [\<lparr>timestamp = t3, user = u, ai = a\<rparr>])"
  by (simp add: stored_history_def[of "add_to_conversation m sid u a t1 t2 t3 t4"] history_of_add)

lemma exchange_of_simp [simp]:
  "exchange_of (u, a, t1, t2, t3, t4) = \<lparr>timestamp = t3, user = u, ai = a\<rparr>"
  by (simp add: exchange_of_def)

lemma stored_history_add_all:
  "stored_history (add_all m sid xs) sid = last20 (stored_history m sid @ map exchange_of xs)"
    if "length (stored_history m sid) \<le> 20"
  using that
proof (induction xs arbitrary: m)
  case Nil
  then show ?case by (simp add: last20_short)
next
  case (Cons x xs)
  obtain u a t1 t2 t3 t4 where x: "x = (u, a, t1, t2, t3, t4)" by (cases x) auto
  let ?m' = "add_to_conversation m sid u a t1 t2 t3 t4"
  have "length (stored_history ?m' sid) \<le> 20" by (simp add: stored_history_add length_last20 del: length_append)
  then have "stored_history (add_all ?m' sid xs) sid = last20 (stored_history ?m' sid @ map exchange_of xs)"
    by (rule Cons.IH)
  then show ?case
    by (simp add: x stored_history_add last20_append)
qed

lemma history_of_add_all:
  "xs \<noteq> [] \<Longrightarrow> history_of (add_all m sid xs) sid \<noteq> None"
proof (induction xs arbitrary: m rule: rev_induct)
  case Nil then show ?case by simp
next
  case (snoc x xs)
  obtain u a t1 t2 t3 t4 where x: "x = (u, a, t1, t2, t3, t4)" by (cases x) auto
  have "add_all m sid (xs @ [x]) = add_to_conversation (add_all m sid xs) sid u a t1 t2 t3 t4"
    unfolding x by (induction xs arbitrary: m) auto
  then show ?case by (simp add: history_of_add)
qed


lemma stored_history_add_all_nonempty:
  "xs \<noteq> [] \<Longrightarrow>
   stored_history (add_all m sid xs) sid = last20 (stored_history m sid @ map exchange_of xs)"
proof (cases xs)
  case Nil
  assume "xs \<noteq> []"
  with Nil show ?thesis by simp
next
  case (Cons x rest)
  obtain u a t1 t2 t3 t4 where x: "x = (u, a, t1, t2, t3, t4)" by (cases x) auto
  let ?m' = "add_to_conversation m sid u a t1 t2 t3 t4"
  have "length (stored_history ?m' sid) \<le> 20"
    by (simp add: stored_history_add length_last20 del: length_append)
  then have "stored_history (add_all ?m' sid rest) sid =
               last20 (stored_history ?m' sid @ map exchange_of rest)"
    by (rule stored_history_add_all)
  then show ?thesis
    by (simp add: Cons x stored_history_add last20_append)
qed

text \<open>
  Claim C3. No stored history exceeds 20 exchanges: the bound holds in every store reached
  from the empty one by any sequence of operations, and every operation keeps it. An
  append leaves the addressed session with the last 20 entries of its former history
  followed by the new exchange, in that order (the oldest are evicted first). 25 appends
  in a row to one session, whatever the store held before, leave exactly the exchanges
  6 to 25, in the order they were appended.
\<close>

theorem history_cap_fifo:
  "cap_ok (foldl apply_op (init_manager hours) ops)
   \<and> (cap_ok m \<longrightarrow> cap_ok (apply_op m op))
   \<and> history_of (add_to_conversation m sid u a t1 t2 t3 t4) sid =
       Some (last20 (stored_history m sid @ [\<lparr>timestamp = t3, user = u, ai = a\<rparr>]))
   \<and> length (last20 (stored_history m sid @ [\<lparr>timestamp = t3, user = u, ai = a\<rparr>])) \<le> 20
   \<and> (length xs = 25 \<longrightarrow>
        history_of (add_all m sid xs) sid = Some (drop 5 (map exchange_of xs))
        \<and> length (drop 5 (map exchange_of xs)) = 20)"
proof -
  have inv: "cap_ok (foldl apply_op (init_manager hours) ops)"
    by (rule cap_ok_run) (rule cap_ok_init)
  have step: "cap_ok m \<longrightarrow> cap_ok (apply_op m op)"
    by (simp add: cap_ok_apply_op)
  have run: "history_of (add_all m sid xs) sid = Some (drop 5 (map exchange_of xs))"
    if len: "length xs = 25"
  proof -
    from len have ne: "xs \<noteq> []" by auto
    then obtain h where h: "history_of (add_all m sid xs) sid = Some h"
      using history_of_add_all by blast
    then have "h = stored_history (add_all m sid xs) sid"
      by (simp add: stored_history_def)
    also have "\<dots> = last20 (stored_history m sid @ map exchange_of xs)"
      using ne by (rule stored_history_add_all_nonempty)
    also have "\<dots> = drop 5 (map exchange_of xs)"
      using len by (simp add: last20_def)
    finally show ?thesis using h by simp
  qed
  show ?thesis
    using inv step run
    by (simp add: history_of_add length_last20 del: length_append)
qed

theorem history_cap_fifo_witness:
  "length (map (\<lambda>n. (''q'', ''a'', int n, int n, int n, int n)) [0..<25]) = 25
   \<and> cap_ok (init_manager 24)
   \<and> cap_ok (apply_op (init_manager 24) (AddToConversation ''s'' ''q'' ''a'' 0 0 0 0))
   \<and> history_of (add_all (init_manager 24) ''s''
         (map (\<lambda>n. (''q'', ''a'', int n, int n, int n, int n)) [0..<25])) ''s'' =
       Some (map (\<lambda>n. \<lparr>timestamp = int n, user = ''q'', ai = ''a''\<rparr>) [5..<25])"
proof -
  have a: "length (map (\<lambda>n. (''q'', ''a'', int n, int n, int n, int n)) [0..<25]) = 25"
    by simp
  have c: "cap_ok (init_manager 24)"
    by (simp add: cap_ok_def init_manager_def)
  have d: "drop 5 (map exchange_of (map (\<lambda>n. (''q'', ''a'', int n, int n, int n, int n)) [0..<25]))
           = map (\<lambda>n. \<lparr>timestamp = int n, user = ''q'', ai = ''a''\<rparr>) [5..<25]"
    by (simp add: drop_map comp_def exchange_of_def)
  show ?thesis
    using a c d
      history_cap_fifo [of 24 "[]" "init_manager 24" "AddToConversation ''s'' ''q'' ''a'' 0 0 0 0"
        "''s''" "''q''" "''a''" 0 0 0 0
        "map (\<lambda>n. (''q'', ''a'', int n, int n, int n, int n)) [0..<25]"]
    by simp
qed

text \<open>
  Claim C4. For a session id the store does not hold, \<open>get_conversation_history\<close>
  returns the empty list and the store unchanged, while \<open>add_to_conversation\<close> adds a
  session under exactly that id, after the existing ones, whose history is the one new
  exchange.
\<close>

theorem read_does_not_create_write_does:
  assumes "\<not> has_session m sid"
  shows "get_conversation_history m sid t_sweep t_act = (Inr [], m)
         \<and> has_session (add_to_conversation m sid u a t1 t2 t3 t4) sid
         \<and> map fst (sessions (add_to_conversation m sid u a t1 t2 t3 t4)) =
             map fst (sessions m) @ [sid]
         \<and> map_of (sessions (add_to_conversation m sid u a t1 t2 t3 t4)) sid =
             Some \<lparr>created_at = t1, last_activity = t4,
                   conversation_history = [\<lparr>timestamp = t3, user = u, ai = a\<rparr>],
                   session_context = []\<rparr>"
proof -
  have none: "map_of (sessions m) sid = None"
    using assms by (simp add: has_session_def map_of_eq_None_iff)
  have keys: "map fst (sessions (add_to_conversation m sid u a t1 t2 t3 t4)) =
             map fst (sessions m) @ [sid]"
    using assms by (simp add: add_to_conversation_eq keys_map_entry keys_update_new has_session_def)
  have entry: "map_of (sessions (add_to_conversation m sid u a t1 t2 t3 t4)) sid =
             Some \<lparr>created_at = t1, last_activity = t4,
                   conversation_history = [\<lparr>timestamp = t3, user = u, ai = a\<rparr>],
                   session_context = []\<rparr>"
    using assms
    by (simp add: add_to_conversation_eq map_of_map_entry AList.update_conv' appended_def
          fresh_session_def last20_def)
  have has: "has_session (add_to_conversation m sid u a t1 t2 t3 t4) sid"
    unfolding has_session_def keys by simp
  show ?thesis
    using assms keys entry has by (simp add: get_conversation_history_def)
qed

theorem read_does_not_create_write_does_witness:
  "\<not> has_session (init_manager 24) ''abc''
   \<and> get_conversation_history (init_manager 24) ''abc'' 5 6 = (Inr [], init_manager 24)
   \<and> sessions (add_to_conversation (init_manager 24) ''abc'' ''hi'' ''hello'' 1 2 3 4) =
       [(''abc'', \<lparr>created_at = 1, last_activity = 4,
                   conversation_history = [\<lparr>timestamp = 3, user = ''hi'', ai = ''hello''\<rparr>],
                   session_context = []\<rparr>)]"
proof -
  have h: "\<not> has_session (init_manager 24) ''abc''"
    by (simp add: has_session_def init_manager_def)
  have s: "sessions (add_to_conversation (init_manager 24) ''abc'' ''hi'' ''hello'' 1 2 3 4) =
       [(''abc'', \<lparr>created_at = 1, last_activity = 4,
                   conversation_history = [\<lparr>timestamp = 3, user = ''hi'', ai = ''hello''\<rparr>],
                   session_context = []\<rparr>)]"
    by (simp add: add_to_conversation_def has_session_def init_manager_def fresh_session_def Let_def)
  show ?thesis
    using h s read_does_not_create_write_does [OF h, of 5 6 "''hi''" "''hello''" 1 2 3 4]
    by simp
qed

text \<open>
  Claim C5, at the input where the code departs from it. The session \<open>s1\<close> is in the
  store and has been idle for more than the 24 hours the store allows. The call passes
  the membership test, the sweep deletes the session, and the indexing that follows
  raises \<open>KeyError\<close> to the caller (the store is left without the session).
\<close>

theorem get_history_of_expired_session_raises:
  "has_session idle_store ''s1''
   \<and> get_conversation_history idle_store ''s1'' 86400000001 86400000001 =
       (Inl KeyError, init_manager 24)"
  by (simp add: idle_store_def create_session_def init_manager_def has_session_def
        get_conversation_history_def cleanup_expired_sessions_def expired_def fresh_session_def
        Let_def AList.delete_eq)

section \<open>Properties of the emotion classifier\<close>

text \<open>A code equation for \<open>lower_char\<close> on the bits of the character, so that concrete
  texts evaluate quickly.\<close>

lemma lower_char_code [code]:
  "lower_char (Char b0 b1 b2 b3 b4 b5 b6 b7) =
     (if b6 \<and> \<not> b5 \<and>
         (if b7 then \<not> (b0 \<and> b1 \<and> b2 \<and> b3 \<and> b4) \<and> \<not> (b0 \<and> b1 \<and> b2 \<and> \<not> b3 \<and> b4)
          else (b0 \<or> b1 \<or> b2 \<or> b3 \<or> b4) \<and> \<not> (b4 \<and> b3 \<and> (b2 \<or> (b1 \<and> b0))))
      then Char b0 b1 b2 b3 b4 True b6 b7
      else Char b0 b1 b2 b3 b4 b5 b6 b7)"
  apply (cases b0; cases b1; cases b2; cases b3; cases b4; cases b5; cases b6; cases b7)
  apply (simp_all add: lower_char_def Let_def char_of_def bit_0)
  done

lemma base_scores_list:
  "map (\<lambda>(emotion, patterns). (emotion, base_score patterns rl)) emotion_patterns =
     scores5 (emotion_base ''happy'' rl) (emotion_base ''thinking'' rl)
       (emotion_base ''explaining'' rl) (emotion_base ''encouraging'' rl)
       (emotion_base ''questioning'' rl)"
  by (simp add: emotion_patterns_def emotion_base_def scores5_def)

lemma add_score_happy: "add_score ''happy'' n (scores5 h t x e q) = Inr (scores5 (h + n) t x e q)"
  by (simp add: add_score_def scores5_def)
lemma add_score_thinking: "add_score ''thinking'' n (scores5 h t x e q) = Inr (scores5 h (t + n) x e q)"
  by (simp add: add_score_def scores5_def)
lemma add_score_explaining: "add_score ''explaining'' n (scores5 h t x e q) = Inr (scores5 h t (x + n) e q)"
  by (simp add: add_score_def scores5_def)
lemma add_score_encouraging: "add_score ''encouraging'' n (scores5 h t x e q) = Inr (scores5 h t x (e + n) q)"
  by (simp add: add_score_def scores5_def)
lemma add_score_questioning: "add_score ''questioning'' n (scores5 h t x e q) = Inr (scores5 h t x e (q + n))"
  by (simp add: add_score_def scores5_def)

lemmas add_score_simps = add_score_happy add_score_thinking add_score_explaining
  add_score_encouraging add_score_questioning

lemma and_then_Inr: "and_then (Inr v) f = f v"
  by (simp add: and_then_def)

lemma rule8_scores5:
  "rule8 ps rl (scores5 h t x e q) =
     Inr (scores5 h t x (e + 3 * int (length (filter (\<lambda>p. contains p rl) ps))) q)"
  by (induction ps arbitrary: e) (simp_all add: add_score_simps and_then_Inr add.assoc)

lemma apply_contextual_rules_scores5:
  "apply_contextual_rules (scores5 h t x e q) r u =
     Inr (scores5
       (h + (if praise_count (lower r) \<ge> 2 then 4 else 0))
       (t + (if length (strip r) < 20 then 2 else 0))
       (x + (if list_ex (\<lambda>char. contains char r) formula_chars then 3 else 0)
          + (if length (strip r) > 200 then 2 else 0))
       (e + query_bonus u
          + 3 * int (length (filter (\<lambda>p. contains p (lower r)) encouraging_phrases)))
       (q + int (count_sub ''?'' r) * 2))"
  by (simp add: apply_contextual_rules_def Let_def rule1_def rule2_def rule3_def rule4_def
        rule5_def rule6_def rule7_def rule8_scores5 add_score_simps and_then_Inr query_bonus_def
        ac_simps)

lemma final_scores_eq:
  "final_scores r u =
     Inr (scores5
       (emotion_base ''happy'' (lower r) + (if praise_count (lower r) \<ge> 2 then 4 else 0))
       (emotion_base ''thinking'' (lower r) + (if length (strip r) < 20 then 2 else 0))
       (emotion_base ''explaining'' (lower r)
          + (if list_ex (\<lambda>char. contains char r) formula_chars then 3 else 0)
          + (if length (strip r) > 200 then 2 else 0))
       (emotion_base ''encouraging'' (lower r) + query_bonus u
          + 3 * int (length (filter (\<lambda>p. contains p (lower r)) encouraging_phrases)))
       (emotion_base ''questioning'' (lower r) + int (count_sub ''?'' r) * 2))"
  by (simp add: final_scores_def Let_def base_scores_list apply_contextual_rules_scores5)

lemma foldl_nonneg:
  "(0::int) \<le> a \<Longrightarrow> (\<And>acc y. 0 \<le> acc \<Longrightarrow> 0 \<le> f acc y) \<Longrightarrow> 0 \<le> foldl f a ys"
  by (induction ys arbitrary: a) simp_all

lemma base_score_nonneg: "0 \<le> base_score p rl"
  unfolding base_score_def Let_def
  by (intro foldl_nonneg) simp_all

lemma emotion_base_nonneg: "0 \<le> emotion_base e rl"
  by (simp add: emotion_base_def base_score_nonneg split: option.splits)

lemma classify_scores5:
  assumes "final_scores r u = Inr (scores5 h t x e q)"
  shows "classify_emotion r u =
     (if h \<le> 0 \<and> t \<le> 0 \<and> x \<le> 0 \<and> e \<le> 0 \<and> q \<le> 0 then ''explaining''
      else if t \<le> h \<and> x \<le> h \<and> e \<le> h \<and> q \<le> h then ''happy''
      else if x \<le> t \<and> e \<le> t \<and> q \<le> t then ''thinking''
      else if e \<le> x \<and> q \<le> x then ''explaining''
      else if q \<le> e then ''encouraging''
      else ''questioning'')"
  using assms
  by (simp add: classify_emotion_def scores5_def default_emotion_def) 


lemma rmatch_never_starts:
  "never_starts T r \<Longrightarrow> set s \<subseteq> set T \<Longrightarrow> rmatch r s = []"
proof (induction r arbitrary: s)
  case (Lit w)
  then obtain c w' where w: "w = c # w'" and c: "lower_char c \<notin> lower_char ` set T"
    by (cases w) auto
  show ?case
  proof (cases s)
    case Nil
    then show ?thesis by (simp add: w lower_def)
  next
    case (Cons d s')
    with Lit.prems(2) have "lower_char d \<in> lower_char ` set T" by auto
    with c have "lower_char d \<noteq> lower_char c" by auto
    then show ?thesis by (simp add: w Cons lower_def)
  qed
next
  case Spaces
  then have "takeWhile is_space s = []"
    by (cases s) (auto simp: list_all_iff)
  then show ?case by simp
next
  case (Cat r1 r2)
  then show ?case by simp
next
  case (Alt r1 r2)
  then show ?case by simp
qed

lemma findall_count_never_starts:
  "never_starts T r \<Longrightarrow> set s \<subseteq> set T \<Longrightarrow> findall_count r b s = 0"
proof (induction s arbitrary: b)
  case Nil
  then show ?case
    by (subst findall_count.simps) (simp add: rmatch_never_starts)
next
  case (Cons c s)
  then have "rmatch r (c # s) = []" by (simp add: rmatch_never_starts)
  moreover have "findall_count r False s = 0" using Cons by simp
  ultimately show ?case
    by (subst findall_count.simps) simp
qed

lemma starts_with_foreign:
  "foreign T w \<Longrightarrow> set s \<subseteq> set T \<Longrightarrow> \<not> starts_with w s"
  by (cases w; cases s) (auto simp: foreign_def starts_with_def)

lemma contains_foreign:
  "foreign T w \<Longrightarrow> set s \<subseteq> set T \<Longrightarrow> \<not> contains w s"
proof (induction s)
  case Nil
  then show ?case by (simp add: foreign_def)
next
  case (Cons c s)
  then show ?case using starts_with_foreign[of T w "c # s"] by simp
qed

lemma count_sub_foreign:
  "foreign T w \<Longrightarrow> set s \<subseteq> set T \<Longrightarrow> count_sub w s = 0"
proof (induction s)
  case Nil
  then show ?case
    using starts_with_foreign[of T w "[]"]
    by (subst count_sub.simps) (simp add: foreign_def)
next
  case (Cons c s)
  then show ?case
    using starts_with_foreign[of T w "c # s"]
    by (subst count_sub.simps) (simp add: foreign_def)
qed

lemma foldl_keywords_zero:
  "list_all (\<lambda>keyword. foreign T (lower keyword)) kws \<Longrightarrow> set rl \<subseteq> set T \<Longrightarrow>
   foldl (\<lambda>score keyword. score + int (count_sub (lower keyword) rl)) a kws = a"
  by (induction kws arbitrary: a) (simp_all add: count_sub_foreign[of T])

lemma foldl_patterns_zero:
  "list_all (never_starts T) pats \<Longrightarrow> set rl \<subseteq> set T \<Longrightarrow>
   foldl (\<lambda>score pattern. score + int (findall_count pattern False rl) * 2) a pats = a"
  by (induction pats arbitrary: a) (simp_all add: findall_count_never_starts[of T])

lemma base_score_quiet:
  "list_all (\<lambda>keyword. foreign T (lower keyword)) kws \<Longrightarrow> list_all (never_starts T) pats \<Longrightarrow>
   set rl \<subseteq> set T \<Longrightarrow> base_score (kws, pats) rl = 0"
  by (simp add: base_score_def Let_def foldl_keywords_zero foldl_patterns_zero)

lemma emotion_base_quiet:
  assumes "quiet T" and "set rl \<subseteq> set T"
  shows "emotion_base e rl = 0"
proof (cases "map_of emotion_patterns e")
  case None
  then show ?thesis by (simp add: emotion_base_def)
next
  case (Some p)
  obtain kws pats where p: "p = (kws, pats)" by (cases p)
  from Some have "(e, kws, pats) \<in> set emotion_patterns"
    unfolding p by (rule map_of_SomeD)
  with assms(1) have "list_all (\<lambda>keyword. foreign T (lower keyword)) kws"
    and "list_all (never_starts T) pats"
    by (auto simp: quiet_def list_all_iff)
  then have "base_score (kws, pats) rl = 0"
    using assms(2) by (rule base_score_quiet)
  with Some p show ?thesis by (simp add: emotion_base_def)
qed

lemma filter_contains_foreign:
  "list_all (foreign T) ws \<Longrightarrow> set s \<subseteq> set T \<Longrightarrow> filter (\<lambda>w. contains w s) ws = []"
  by (induction ws) (simp_all add: contains_foreign[of T])

lemma list_ex_contains_foreign:
  "list_all (foreign T) ws \<Longrightarrow> set s \<subseteq> set T \<Longrightarrow> \<not> list_ex (\<lambda>w. contains w s) ws"
  by (induction ws) (simp_all add: contains_foreign[of T])

lemma final_scores_quiet:
  assumes "quiet T" and "set r \<subseteq> set T" and "set (lower r) \<subseteq> set T"
  shows "final_scores r u =
     Inr (scores5 0 (if length (strip r) < 20 then 2 else 0)
            (if length (strip r) > 200 then 2 else 0) (query_bonus u) 0)"
proof -
  from assms(1) have f: "list_all (foreign T) formula_chars"
    and p: "list_all (foreign T) praise_words"
    and e: "list_all (foreign T) encouraging_phrases"
    and q: "foreign T ''?''"
    by (simp_all add: quiet_def)
  have "praise_count (lower r) = 0"
    using p assms(3) by (simp add: praise_count_def filter_contains_foreign)
  moreover have "\<not> list_ex (\<lambda>char. contains char r) formula_chars"
    using f assms(2) by (rule list_ex_contains_foreign)
  moreover have "filter (\<lambda>p. contains p (lower r)) encouraging_phrases = []"
    using e assms(3) by (rule filter_contains_foreign)
  moreover have "count_sub ''?'' r = 0"
    using q assms(2) by (rule count_sub_foreign)
  ultimately show ?thesis
    using emotion_base_quiet[OF assms(1) assms(3)]
    by (simp add: final_scores_eq)
qed

lemma quiet_white_space: "quiet white_space"
  by code_simp

lemma is_space_white_space: "is_space c = (c \<in> set white_space)"
  by (simp add: is_space_def white_space_def)

lemma lower_char_space: "is_space c \<Longrightarrow> lower_char c = c"
  by (auto simp: is_space_def lower_char_def Let_def)

lemma lower_spaces: "list_all is_space r \<Longrightarrow> lower r = r"
  by (induction r) (simp_all add: lower_def lower_char_space)

lemma strip_spaces: "list_all is_space r \<Longrightarrow> strip r = []"
  by (auto simp: strip_def list_all_iff dest: set_dropWhileD)

lemma final_scores_spaces:
  assumes "list_all is_space r"
  shows "final_scores r u = Inr (scores5 0 2 0 (query_bonus u) 0)"
proof -
  have s: "set r \<subseteq> set white_space"
    using assms by (auto simp: list_all_iff is_space_white_space)
  have "set (lower r) \<subseteq> set white_space"
    using s assms by (simp add: lower_spaces)
  with quiet_white_space s
  have "final_scores r u =
     Inr (scores5 0 (if length (strip r) < 20 then 2 else 0)
            (if length (strip r) > 200 then 2 else 0) (query_bonus u) 0)"
    by (rule final_scores_quiet)
  then show ?thesis using assms by (simp add: strip_spaces)
qed


lemma query_bonus_cases: "query_bonus u = 0 \<or> query_bonus u = 2 \<or> query_bonus u = 4"
  by (simp add: query_bonus_def)

lemma classify_spaces:
  assumes "list_all is_space r"
  shows "classify_emotion r u = (if query_bonus u = 4 then ''encouraging'' else ''thinking'')"
  using query_bonus_cases[of u]
  by (auto simp: classify_scores5[OF final_scores_spaces[OF assms]])

lemma first_max_scores5:
  assumes "final_scores r u = Inr (scores5 h t x e q)"
    and "0 < h \<or> 0 < t \<or> 0 < x \<or> 0 < e \<or> 0 < q"
  shows "\<exists>pre v post. scores5 h t x e q = pre @ (classify_emotion r u, v) # post
           \<and> list_all (\<lambda>p. snd p < v) pre \<and> list_all (\<lambda>p. snd p \<le> v) post"
proof -
  note c = classify_scores5[OF assms(1)]
  consider (H) "t \<le> h \<and> x \<le> h \<and> e \<le> h \<and> q \<le> h"
    | (T) "h < t \<and> x \<le> t \<and> e \<le> t \<and> q \<le> t"
    | (X) "h < x \<and> t < x \<and> e \<le> x \<and> q \<le> x"
    | (E) "h < e \<and> t < e \<and> x < e \<and> q \<le> e"
    | (Q) "h < q \<and> t < q \<and> x < q \<and> e < q"
    by linarith
  then show ?thesis
  proof cases
    case H
    with assms(2) have "classify_emotion r u = ''happy''" by (auto simp: c)
    then have "scores5 h t x e q = [] @ (classify_emotion r u, h) #
                 [(''thinking'', t), (''explaining'', x), (''encouraging'', e), (''questioning'', q)]"
      by (simp add: scores5_def)
    moreover have "list_all (\<lambda>p. snd p \<le> h)
                 [(''thinking'', t), (''explaining'', x), (''encouraging'', e), (''questioning'', q)]"
      using H by simp
    moreover have "list_all (\<lambda>p. snd p < h) []" by simp
    ultimately show ?thesis by blast
  next
    case T
    with assms(2) have "classify_emotion r u = ''thinking''" by (auto simp: c)
    then have "scores5 h t x e q = [(''happy'', h)] @ (classify_emotion r u, t) #
                 [(''explaining'', x), (''encouraging'', e), (''questioning'', q)]"
      by (simp add: scores5_def)
    moreover have "list_all (\<lambda>p. snd p < t) [(''happy'', h)]" using T by simp
    moreover have "list_all (\<lambda>p. snd p \<le> t)
                 [(''explaining'', x), (''encouraging'', e), (''questioning'', q)]"
      using T by simp
    ultimately show ?thesis by blast
  next
    case X
    with assms(2) have "classify_emotion r u = ''explaining''" by (auto simp: c)
    then have "scores5 h t x e q = [(''happy'', h), (''thinking'', t)] @ (classify_emotion r u, x) #
                 [(''encouraging'', e), (''questioning'', q)]"
      by (simp add: scores5_def)
    moreover have "list_all (\<lambda>p. snd p < x) [(''happy'', h), (''thinking'', t)]" using X by simp
    moreover have "list_all (\<lambda>p. snd p \<le> x) [(''encouraging'', e), (''questioning'', q)]"
      using X by simp
    ultimately show ?thesis by blast
  next
    case E
    with assms(2) have "classify_emotion r u = ''encouraging''" by (auto simp: c)
    then have "scores5 h t x e q =
                 [(''happy'', h), (''thinking'', t), (''explaining'', x)] @ (classify_emotion r u, e) #
                 [(''questioning'', q)]"
      by (simp add: scores5_def)
    moreover have "list_all (\<lambda>p. snd p < e) [(''happy'', h), (''thinking'', t), (''explaining'', x)]"
      using E by simp
    moreover have "list_all (\<lambda>p. snd p \<le> e) [(''questioning'', q)]"
      using E by simp
    ultimately show ?thesis by blast
  next
    case Q
    with assms(2) have "classify_emotion r u = ''questioning''" by (auto simp: c)
    then have "scores5 h t x e q =
                 [(''happy'', h), (''thinking'', t), (''explaining'', x), (''encouraging'', e)] @
                 (classify_emotion r u, q) # []"
      by (simp add: scores5_def)
    moreover have "list_all (\<lambda>p. snd p < q)
                 [(''happy'', h), (''thinking'', t), (''explaining'', x), (''encouraging'', e)]"
      using Q by simp
    moreover have "list_all (\<lambda>p. snd p \<le> q) []" by simp
    ultimately show ?thesis by blast
  qed
qed


lemma quiet_z: "quiet [CHR ''z'']"
  by code_simp

text \<open>
  Claim C2. For every response text and every query text the scoring raises nothing
  (\<open>final_scores\<close> is a dict, never an error) and \<open>classify_emotion\<close> returns one of
  the five labels.
\<close>

theorem classify_emotion_closed_set:
  "(\<exists>emotion_scores. final_scores ai_response user_query = Inr emotion_scores)
   \<and> classify_emotion ai_response user_query
       \<in> set [''happy'', ''thinking'', ''explaining'', ''encouraging'', ''questioning'']"
  by (simp add: classify_scores5[OF final_scores_eq] final_scores_eq)

theorem classify_emotion_closed_set_witness:
  "classify_emotion [CHR 0x00, CHR 0x07, CHR 0x1B] [CHR 0x7F] = ''thinking''
   \<and> classify_emotion [CHR 0x00, CHR 0x07, CHR 0x1B] [CHR 0x7F]
       \<in> set [''happy'', ''thinking'', ''explaining'', ''encouraging'', ''questioning'']"
proof -
  have "classify_emotion [CHR 0x00, CHR 0x07, CHR 0x1B] [CHR 0x7F] = ''thinking''"
    by code_simp
  then show ?thesis
    using classify_emotion_closed_set [of "[CHR 0x00, CHR 0x07, CHR 0x1B]" "[CHR 0x7F]"]
    by simp
qed

text \<open>
  Claim C8 as stated fails where all five labels tie at score 0: twenty letters \<open>z\<close>
  carry no keyword, pattern or rule, the maximum 0 is shared by every label, and the
  classifier returns the default \<open>explaining\<close>, not \<open>happy\<close>, the first in
  declaration order.
\<close>

theorem tie_at_zero_counterexample:
  "final_scores ''zzzzzzzzzzzzzzzzzzzz'' [] =
     Inr [(''happy'', 0), (''thinking'', 0), (''explaining'', 0), (''encouraging'', 0),
          (''questioning'', 0)]
   \<and> classify_emotion ''zzzzzzzzzzzzzzzzzzzz'' [] = ''explaining''"
proof -
  have l: "lower ''zzzzzzzzzzzzzzzzzzzz'' = ''zzzzzzzzzzzzzzzzzzzz''"
    by code_simp
  have s: "strip ''zzzzzzzzzzzzzzzzzzzz'' = ''zzzzzzzzzzzzzzzzzzzz''"
    by code_simp
  have b: "query_bonus [] = 0"
    by code_simp
  have "set ''zzzzzzzzzzzzzzzzzzzz'' \<subseteq> set [CHR ''z'']"
    by simp
  moreover from this l have "set (lower ''zzzzzzzzzzzzzzzzzzzz'') \<subseteq> set [CHR ''z'']"
    by simp
  ultimately have f: "final_scores ''zzzzzzzzzzzzzzzzzzzz'' [] = Inr (scores5 0 0 0 0 0)"
    using final_scores_quiet[OF quiet_z, of "''zzzzzzzzzzzzzzzzzzzz''" "[]"]
    by (simp add: s b)
  show ?thesis
    using f classify_scores5[OF f] by (simp add: scores5_def)
qed

text \<open>
  Claim C8, amended. The scores always form the dict of the five labels in declaration
  order. When some score is positive, the label returned has a score that every label
  declared before it is strictly below and no label declared after it exceeds: among
  the labels sharing the maximum it is the first in declaration order. When no score is
  positive, the label returned is the default \<open>explaining\<close>.
\<close>

theorem tie_break_first_positive_maximum:
  "\<exists>sc. final_scores r u = Inr sc
     \<and> map fst sc = [''happy'', ''thinking'', ''explaining'', ''encouraging'', ''questioning'']
     \<and> (if list_ex (\<lambda>p. 0 < snd p) sc
        then \<exists>pre v post. sc = pre @ (classify_emotion r u, v) # post
               \<and> list_all (\<lambda>p. snd p < v) pre \<and> list_all (\<lambda>p. snd p \<le> v) post
        else classify_emotion r u = ''explaining'')"
proof -
  obtain h t x e q where f: "final_scores r u = Inr (scores5 h t x e q)"
    using final_scores_eq by blast
  have k: "map fst (scores5 h t x e q) =
             [''happy'', ''thinking'', ''explaining'', ''encouraging'', ''questioning'']"
    by (simp add: scores5_def)
  have p: "list_ex (\<lambda>p. 0 < snd p) (scores5 h t x e q) =
             (0 < h \<or> 0 < t \<or> 0 < x \<or> 0 < e \<or> 0 < q)"
    by (simp add: scores5_def)
  show ?thesis
  proof (cases "0 < h \<or> 0 < t \<or> 0 < x \<or> 0 < e \<or> 0 < q")
    case True
    from first_max_scores5[OF f True] f k p True show ?thesis by simp
  next
    case False
    then have "classify_emotion r u = ''explaining''"
      by (auto simp: classify_scores5[OF f])
    with f k p False show ?thesis by simp
  qed
qed

theorem tie_break_first_positive_maximum_witness:
  "final_scores [] ''help'' =
     Inr [(''happy'', 0), (''thinking'', 2), (''explaining'', 0), (''encouraging'', 2),
          (''questioning'', 0)]
   \<and> classify_emotion [] ''help'' = ''thinking''"
proof -
  have f: "final_scores [] ''help'' =
     Inr [(''happy'', 0), (''thinking'', 2), (''explaining'', 0), (''encouraging'', 2),
          (''questioning'', 0)]"
    by code_simp
  obtain sc pre v post where sc: "final_scores [] ''help'' = Inr sc"
    and split: "list_ex (\<lambda>p. 0 < snd p) sc \<Longrightarrow>
                  sc = pre @ (classify_emotion [] ''help'', v) # post
                  \<and> list_all (\<lambda>p. snd p < v) pre \<and> list_all (\<lambda>p. snd p \<le> v) post"
    using tie_break_first_positive_maximum [of "[]" "''help''"]
    by (metis (no_types, lifting))
  from f sc have sc_eq: "sc = [(''happy'', 0), (''thinking'', 2), (''explaining'', 0),
                               (''encouraging'', 2), (''questioning'', 0)]"
    by simp
  then have "list_ex (\<lambda>p. 0 < snd p) sc" by simp
  from split[OF this] have
        a: "sc = pre @ (classify_emotion [] ''help'', v) # post"
    and b: "list_all (\<lambda>p. snd p < v) pre"
    and c: "list_all (\<lambda>p. snd p \<le> v) post"
    by simp_all
  have "classify_emotion [] ''help'' = ''thinking''"
    using a b c unfolding sc_eq
    by (auto simp: append_eq_Cons_conv Cons_eq_append_conv)
  with f show ?thesis by simp
qed

text \<open>
  Claim C9 as stated fails on the empty response: rule 1 (a response shorter than 20
  characters after trimming) gives \<open>thinking\<close> two points, so the maximum is not 0 and
  the classifier returns \<open>thinking\<close>, not the default \<open>explaining\<close>.
\<close>

theorem empty_response_counterexample:
  "list_all is_space [] \<and> classify_emotion [] [] = ''thinking''"
  by code_simp

text \<open>
  Claim C9, amended. For every response that is empty or white space only, and every
  query, the scores are 2 for \<open>thinking\<close> (rule 1), what rules 3 and 4 give
  \<open>encouraging\<close> for the query, and 0 for the rest; the classifier returns
  \<open>encouraging\<close> when the query holds both an error indicator and a struggle indicator,
  and \<open>thinking\<close> otherwise.
\<close>

theorem whitespace_response_thinking_or_encouraging:
  "list_all is_space r \<Longrightarrow>
     final_scores r u =
       Inr [(''happy'', 0), (''thinking'', 2), (''explaining'', 0),
            (''encouraging'', query_bonus u), (''questioning'', 0)]
     \<and> classify_emotion r u =
         (if list_ex (\<lambda>indicator. contains indicator (lower u)) error_indicators
             \<and> list_ex (\<lambda>indicator. contains indicator (lower u)) struggle_indicators
          then ''encouraging'' else ''thinking'')"
proof -
  assume a: "list_all is_space r"
  have "(query_bonus u = 4) =
          (list_ex (\<lambda>indicator. contains indicator (lower u)) error_indicators
           \<and> list_ex (\<lambda>indicator. contains indicator (lower u)) struggle_indicators)"
    by (simp add: query_bonus_def)
  then show ?thesis
    using final_scores_spaces[OF a, of u] classify_spaces[OF a, of u]
    by (simp add: scores5_def)
qed

theorem whitespace_response_thinking_or_encouraging_witness:
  "list_all is_space [CHR 0x20, CHR 0x09, CHR 0x0A]
   \<and> classify_emotion [CHR 0x20, CHR 0x09, CHR 0x0A] ''Help, this is wrong'' = ''encouraging''
   \<and> classify_emotion [CHR 0x20, CHR 0x09, CHR 0x0A] ''ok'' = ''thinking''"
proof -
  have a: "list_all is_space [CHR 0x20, CHR 0x09, CHR 0x0A]"
    by (simp add: is_space_def)
  have b: "list_ex (\<lambda>indicator. contains indicator (lower ''Help, this is wrong'')) error_indicators"
    by code_simp
  have c: "list_ex (\<lambda>indicator. contains indicator (lower ''Help, this is wrong'')) struggle_indicators"
    by code_simp
  have d: "\<not> list_ex (\<lambda>indicator. contains indicator (lower ''ok'')) error_indicators"
    by code_simp
  show ?thesis
    using a b c d
      whitespace_response_thinking_or_encouraging [OF a, of "''Help, this is wrong''"]
      whitespace_response_thinking_or_encouraging [OF a, of "''ok''"]
    by simp
qed

text \<open>
  Claim C10 as stated fails when another label outscores \<open>happy\<close>: the response
  \<open>right? good?\<close> holds two praise words, \<open>happy\<close> scores 4, and the two question
  marks give \<open>questioning\<close> 8, which is returned.
\<close>

theorem praise_outscored_counterexample:
  "praise_count (lower ''right? good?'') = 2
   \<and> final_scores ''right? good?'' [] =
       Inr [(''happy'', 4), (''thinking'', 2), (''explaining'', 0), (''encouraging'', 0),
            (''questioning'', 8)]
   \<and> classify_emotion ''right? good?'' [] = ''questioning''"
  by code_simp

text \<open>
  Claim C10, amended. For every response holding at least 2 distinct praise words, rule 5
  adds 4 to the keyword and pattern score of \<open>happy\<close>, so \<open>happy\<close> scores at least 4,
  and \<open>classify_emotion\<close> returns \<open>happy\<close> exactly when no other label scores more
  than \<open>happy\<close>.
\<close>

theorem praise_words_happy_unless_outscored:
  "2 \<le> praise_count (lower r) \<Longrightarrow>
     \<exists>h t x e q.
       final_scores r u =
         Inr [(''happy'', h), (''thinking'', t), (''explaining'', x), (''encouraging'', e),
              (''questioning'', q)]
       \<and> h = emotion_base ''happy'' (lower r) + 4 \<and> 4 \<le> h
       \<and> (classify_emotion r u = ''happy'') = (t \<le> h \<and> x \<le> h \<and> e \<le> h \<and> q \<le> h)"
proof -
  assume a: "2 \<le> praise_count (lower r)"
  obtain h t x e q where f: "final_scores r u = Inr (scores5 h t x e q)"
    and h: "h = emotion_base ''happy'' (lower r) + 4"
    using final_scores_eq[of r u] a by simp
  have h4: "4 \<le> h"
    using h emotion_base_nonneg[of "''happy''" "lower r"] by simp
  have "(classify_emotion r u = ''happy'') = (t \<le> h \<and> x \<le> h \<and> e \<le> h \<and> q \<le> h)"
    using h4 by (auto simp: classify_scores5[OF f])
  with f h h4 show ?thesis
    by (simp add: scores5_def)
qed

theorem praise_words_happy_unless_outscored_witness:
  "2 \<le> praise_count (lower ''Excellent! That's correct, exactly right.'')
   \<and> classify_emotion ''Excellent! That's correct, exactly right.'' [] = ''happy''"
proof -
  have a: "2 \<le> praise_count (lower ''Excellent! That's correct, exactly right.'')"
    by code_simp
  have f: "final_scores ''Excellent! That's correct, exactly right.'' [] =
             Inr [(''happy'', 5), (''thinking'', 0), (''explaining'', 0), (''encouraging'', 0),
                  (''questioning'', 0)]"
    by code_simp
  from praise_words_happy_unless_outscored [OF a, of "[]"] f
  have "classify_emotion ''Excellent! That's correct, exactly right.'' [] = ''happy''"
    by auto
  with a show ?thesis by simp
qed

section \<open>Properties of the provider cascade\<close>

lemma snd_gemini_chat: "snd (gemini_chat env log m h) = log @ [Gemini]"
  by (simp add: gemini_chat_def Let_def split: option.splits reply.splits)

lemma fst_gemini_chat_nonempty: "fst (gemini_chat env log m h) \<noteq> []"
  by (simp add: gemini_chat_def Let_def not_configured_message_def trouble_message_def
        difficulties_message_def split: option.splits reply.splits)

lemma get_fallback_response_nonempty: "get_fallback_response q \<noteq> []"
  by (simp add: get_fallback_response_def Let_def fallback_machine_learning_def
        fallback_neural_networks_def fallback_programming_def fallback_mathematics_def
        fallback_general_help_def fallback_generic_def)





lemma fst_direct_llm_query_nonempty:
  assumes "\<And>n s x. llm_invoke env n s x \<noteq> Returned []"
  shows "fst (direct_llm_query env log q) \<noteq> []"
proof -
  obtain g where g: "gemini_chat env log q [] = (g, log @ [Gemini])"
    using snd_gemini_chat[of env log q "[]"] by (cases "gemini_chat env log q []") simp
  show ?thesis
    using assms[of "count_list (log @ [Gemini]) OpenAI" system_prompt q]
    by (auto simp: direct_llm_query_def g usable_def get_fallback_response_nonempty
          split: reply.splits)
qed

lemma fst_query_nonempty:
  assumes "\<And>n s x. llm_invoke env n s x \<noteq> Returned []"
    and "\<And>n x. qa_chain env n x \<noteq> Returned []"
  shows "fst (query env log q) \<noteq> []"
  using assms(2)[of "count_list log Retrieval" q]
  by (auto simp: query_def fst_direct_llm_query_nonempty[OF assms(1)] split: reply.splits)

lemma fst_chat_nonempty:
  assumes "\<And>n s x. llm_invoke env n s x \<noteq> Returned []"
    and "\<And>n x. qa_chain env n x \<noteq> Returned []"
  shows "fst (chat env q h) \<noteq> []"
proof -
  obtain g where g: "gemini_chat env [] q h = (g, [Gemini])"
    using snd_gemini_chat[of env "[]" q h] by (cases "gemini_chat env [] q h") simp
  show ?thesis
    by (auto simp: chat_def g usable_def fst_direct_llm_query_nonempty[OF assms(1)]
          fst_query_nonempty[OF assms] split: sum.splits)
qed

lemma starts_with_iff: "starts_with w s = (\<exists>post. s = w @ post)"
proof
  assume "starts_with w s"
  then have "s = w @ drop (length w) s"
    by (metis append_take_drop_id starts_with_def)
  then show "\<exists>post. s = w @ post" ..
next
  assume "\<exists>post. s = w @ post"
  then show "starts_with w s" by (auto simp: starts_with_def)
qed

lemma contains_iff: "contains w s = (\<exists>pre post. s = pre @ w @ post)"
proof (induction s)
  case Nil
  then show ?case by simp
next
  case (Cons c s)
  note IH = Cons.IH
  show ?case
  proof
    assume "contains w (c # s)"
    then consider "starts_with w (c # s)" | "contains w s" by auto
    then show "\<exists>pre post. c # s = pre @ w @ post"
    proof cases
      case 1
      then obtain post where "c # s = [] @ w @ post" by (auto simp: starts_with_iff)
      then show ?thesis by blast
    next
      case 2
      with IH obtain pre post where "s = pre @ w @ post" by auto
      then have "c # s = (c # pre) @ w @ post" by simp
      then show ?thesis by blast
    qed
  next
    assume "\<exists>pre post. c # s = pre @ w @ post"
    then obtain pre post where e: "c # s = pre @ w @ post" by auto
    show "contains w (c # s)"
    proof (cases pre)
      case Nil
      with e have "starts_with w (c # s)" by (auto simp: starts_with_iff)
      then show ?thesis by simp
    next
      case (Cons d pre')
      with e have "s = pre' @ w @ post" by simp
      with IH have "contains w s" by auto
      then show ?thesis by simp
    qed
  qed
qed

lemma not_usable_difficulties: "\<not> usable (difficulties_message e)"
proof -
  have "lower (difficulties_message e) =
          ''i'm '' @ ''experiencing some technical difficulties'' @ (''. error: '' @ lower e)"
    by (simp add: difficulties_message_def lower_def) code_simp
  then have "contains ''experiencing some technical difficulties'' (lower (difficulties_message e))"
    unfolding contains_iff by blast
  then show ?thesis
    by (simp add: usable_def)
qed

lemma usable_not_configured: "usable not_configured_message"
  by code_simp

lemma usable_trouble: "usable trouble_message"
  by code_simp

text \<open>
  Claim C1, at the inputs where the code departs from it. Gemini raises, so its answer is
  the technical-difficulties text, which \<open>chat\<close> rejects. With a vector store whose
  retrieval chain answers with the empty text, \<open>query\<close> returns \<open>result["answer"]\<close>
  as it is; without a vector store and with an OpenAI model that answers with the empty
  text, \<open>_direct_llm_query\<close> returns \<open>response.content\<close> as it is. In both cases
  \<open>chat\<close> returns the empty text. (Both callers test the Gemini answer for emptiness;
  the retrieval and OpenAI answers are not tested. \<open>chat\<close> raises on no input: the
  model is a total function in which every raise of the source is a branch. By
  \<open>fst_chat_nonempty\<close> the answer is non-empty whenever neither of the two untested
  providers returns the empty text, in particular when every provider raises.)
\<close>

theorem chat_returns_empty_answer:
  "chat empty_answer_env ''What is a tensor?'' [] = ([], [Gemini, Retrieval])
   \<and> chat empty_content_env ''What is a tensor?'' [] = ([], [Gemini, Gemini, OpenAI])"
  by (simp add: chat_def gemini_chat_def empty_answer_env_def empty_content_env_def Let_def
        not_usable_difficulties build_conversation_context_def query_def direct_llm_query_def)

text \<open>
  Claim C6, at the inputs where the code departs from it. \<open>chat\<close> treats a Gemini
  answer as a failure only when it holds \<open>experiencing some technical difficulties\<close>.
  The other two messages \<open>GeminiAI.chat\<close> emits instead of raising pass the test: with
  no API key configured, and with an empty Gemini response, the apology is returned as
  the final answer and no further provider is invoked, whatever the others would do.
\<close>

theorem degraded_gemini_text_is_final_answer:
  "chat \<lparr>gemini_model = None, vectorstore = v, qa_chain = c, llm_invoke = i\<rparr> q h =
     (''Gemini AI is not properly configured. Please check your API key.'', [Gemini])
   \<and> chat \<lparr>gemini_model = Some (\<lambda>n prompt. Returned []), vectorstore = v, qa_chain = c,
            llm_invoke = i\<rparr> q h =
     (''I'm having trouble generating a response right now. Could you please rephrase your question?'',
      [Gemini])"
  using usable_not_configured usable_trouble
  by (simp add: chat_def gemini_chat_def Let_def not_configured_message_def trouble_message_def)




end
